theory Spec2Isabelle
  imports Main
begin

section \<open>Data model\<close>

text \<open>
  The program talks to a remote HTTP API, prints progress, sleeps and writes a CSV file.
  A request is what \<^verbatim>\<open>requests.get(url, headers=..., params=...)\<close> sends; the query
  parameters keep the order of the Python dict literal.
\<close>

datatype param = PInt int | PStr string

record request =
  url :: string
  req_headers :: "(string \<times> string) list"
  params :: "(string \<times> param) list"

text \<open>
  The exceptions the code can raise on what a server sends. Nothing in the source catches
  an exception, so a raised one ends the run.
\<close>

datatype error = JSONDecodeError | AttributeError | TypeError

text \<open>
  A response carries the status code, the body as \<^verbatim>\<open>response.json()\<close> decodes it, and,
  when the header \<^verbatim>\<open>X-RateLimit-Remaining\<close> is present, the integer that
  \<^verbatim>\<open>int(response.headers['X-RateLimit-Remaining'])\<close> reads from it. The body is
  \<open>None\<close> when it is not JSON (an HTML error page, an empty body): there
  \<^verbatim>\<open>response.json()\<close> raises \<^verbatim>\<open>JSONDecodeError\<close>. A body that decodes is typed by
  endpoint: the keys the code subscripts (\<^verbatim>\<open>login\<close>, \<^verbatim>\<open>name\<close>,
  \<^verbatim>\<open>permissions\<close>, \<^verbatim>\<open>type\<close>) are fields. The body of a failed response has the
  type of the endpoint too; the code only prints it. Connection errors, and decoded
  bodies of another shape than the endpoint's, are outside this model.
\<close>

record 'a response =
  status_code :: int
  json :: "'a option"
  x_ratelimit_remaining :: "int option"

text \<open>
  A key of a JSON object that the code tests with \<^verbatim>\<open>in\<close> or reads through
  \<^verbatim>\<open>.get\<close> before it uses the value: the key can be missing, hold \<^verbatim>\<open>null\<close>, or
  hold a value. The code treats the first two differently.
\<close>

datatype 'a field = Absent | Null | Present 'a

record org =
  org_login :: string

record repo =
  name :: string

record collaborator =
  collab_login :: string
  collab_permissions :: "string \<rightharpoonup> bool"

text \<open>
  The two \<^verbatim>\<open>email\<close> keys are only read through \<^verbatim>\<open>.get('email')\<close> and tested for
  truth, so a missing key and \<^verbatim>\<open>null\<close> are the same \<open>None\<close> there.
\<close>

record user =
  user_email :: "string option"

record author =
  author_email :: "string option"

record commit =
  commit_author :: "author field"

record payload =
  payload_commits :: "commit list field"

record event =
  event_type :: string
  event_payload :: "payload field"

text \<open>
  The remote service: one response function per endpoint family. A response depends on
  the request alone, so asking twice gives the same answer.
\<close>

record server =
  user_orgs :: "request \<Rightarrow> org list response"
  org_repos :: "request \<Rightarrow> repo list response"
  repo_collaborators :: "request \<Rightarrow> collaborator list response"
  users :: "request \<Rightarrow> user response"
  user_events :: "request \<Rightarrow> event list response"

text \<open>
  What the program does to the outside world, in the order it does it: requests sent,
  lines printed (one constructor per \<^verbatim>\<open>print\<close> of the source, carrying the values
  it formats), \<^verbatim>\<open>time.sleep\<close>, and the output file opened in mode \<^verbatim>\<open>'w'\<close>
  (created or truncated), written row by row through \<^verbatim>\<open>csv_writer.writerow\<close>, and
  closed when the \<^verbatim>\<open>with\<close> block is left. Every function that has effects takes the
  trace so far and returns it extended, next to its value or the exception it raised.
\<close>

datatype message =
    ErrorFetchingOrganizations int
  | ErrorFetchingRepositories string int
  | ErrorFetchingCollaborators string string int
  | OrgsBody "org list"
  | ReposBody "repo list"
  | CollaboratorsBody "collaborator list"
  | RateLimitApproaching
  | FoundOrganizations nat "string list"
  | ProcessingOrganization string
  | FoundRepositories nat string
  | ProcessingRepository string
  | AddedCollaborators nat string
  | ReportGenerated string

datatype effect =
    Request request
  | Print message
  | Sleep nat
  | OpenWrite string
  | WriteRow "string list"
  | CloseFile string

type_synonym trace = "effect list"

section \<open>Python helpers\<close>

text \<open>\<^verbatim>\<open>d.get(k, default)\<close> on a dict.\<close>

definition dict_get :: "('k \<rightharpoonup> 'v) \<Rightarrow> 'k \<Rightarrow> 'v \<Rightarrow> 'v" where
  "dict_get d k dflt = (case d k of None \<Rightarrow> dflt | Some v \<Rightarrow> v)"

text \<open>Truth value of an optional string: \<^verbatim>\<open>None\<close> and \<^verbatim>\<open>""\<close> are false.\<close>

fun truthy :: "string option \<Rightarrow> bool" where
  "truthy None = False"
| "truthy (Some s) = (s \<noteq> [])"

text \<open>\<^verbatim>\<open>s.endswith(suffix)\<close>.\<close>

definition endswith :: "string \<Rightarrow> string \<Rightarrow> bool" where
  "endswith s sfx = (length sfx \<le> length s \<and> drop (length s - length sfx) s = sfx)"

section \<open>The program\<close>

definition get_headers :: "string \<Rightarrow> (string \<times> string) list" where
  "get_headers token =
     [(''Authorization'', ''token '' @ token),
      (''Accept'', ''application/vnd.github.v3+json'')]"

text \<open>
  Line 23 prints the status before line 24 decodes the body to print it, so a body that
  is not JSON raises after the first \<^verbatim>\<open>print\<close> and before the \<^verbatim>\<open>return\<close>.
\<close>

definition get_organizations ::
  "server \<Rightarrow> string \<Rightarrow> trace \<Rightarrow> (error + org list) \<times> trace" where
  "get_organizations srv token tr =
     (let headers = get_headers token;
          req = \<lparr>url = ''https://api.github.com/user/orgs'', req_headers = headers, params = []\<rparr>;
          response = user_orgs srv req;
          tr = tr @ [Request req]
      in if status_code response \<noteq> 200
         then
           let tr = tr @ [Print (ErrorFetchingOrganizations (status_code response))]
           in (case json response of
                 None \<Rightarrow> (Inl JSONDecodeError, tr)
               | Some body \<Rightarrow> (Inr [], tr @ [Print (OrgsBody body)]))
         else (case json response of
                 None \<Rightarrow> (Inl JSONDecodeError, tr)
               | Some orgs \<Rightarrow> (Inr orgs, tr)))"

text \<open>
  The \<^verbatim>\<open>while True\<close> loop of \<^verbatim>\<open>get_repos_for_org\<close>, with its variables
  \<^verbatim>\<open>all_repos\<close> and \<^verbatim>\<open>page\<close>. It ends when a page answers with a status other than
  200 or with an empty list, or when \<^verbatim>\<open>response.json()\<close> raises (line 45 on a failed
  response, after the status has been printed; line 48 on a successful one). On a server
  that never makes it end it runs forever, and the function has the value \<open>None\<close>.
\<close>

partial_function (option) get_repos_loop ::
  "server \<Rightarrow> string \<Rightarrow> (string \<times> string) list \<Rightarrow> repo list \<Rightarrow> int \<Rightarrow> trace
     \<Rightarrow> ((error + repo list) \<times> trace) option" where
  "get_repos_loop srv org_name headers all_repos page tr =
     (let req = \<lparr>url = ''https://api.github.com/orgs/'' @ org_name @ ''/repos'',
                 req_headers = headers,
                 params = [(''per_page'', PInt 100), (''page'', PInt page)]\<rparr>;
          response = org_repos srv req;
          tr = tr @ [Request req]
      in if status_code response \<noteq> 200
         then
           let tr = tr @ [Print (ErrorFetchingRepositories org_name (status_code response))]
           in (case json response of
                 None \<Rightarrow> Some (Inl JSONDecodeError, tr)
               | Some body \<Rightarrow> Some (Inr all_repos, tr @ [Print (ReposBody body)]))
         else
           (case json response of
              None \<Rightarrow> Some (Inl JSONDecodeError, tr)
            | Some repos \<Rightarrow>
                if repos = [] then Some (Inr all_repos, tr)
                else
                  let all_repos = all_repos @ repos;
                      page = page + 1
                  in if (case x_ratelimit_remaining response of
                           None \<Rightarrow> False | Some remaining \<Rightarrow> remaining < 10)
                     then get_repos_loop srv org_name headers all_repos page
                            (tr @ [Print RateLimitApproaching, Sleep 60])
                     else get_repos_loop srv org_name headers all_repos page tr))"

declare get_repos_loop.simps [code]

definition get_repos_for_org ::
  "server \<Rightarrow> string \<Rightarrow> string \<Rightarrow> trace \<Rightarrow> ((error + repo list) \<times> trace) option" where
  "get_repos_for_org srv org_name token tr =
     get_repos_loop srv org_name (get_headers token) [] 1 tr"

text \<open>
  The same loop in \<^verbatim>\<open>get_collaborators_for_repo\<close>: only the URL, the extra query
  parameter and the error message differ.
\<close>

partial_function (option) get_collaborators_loop ::
  "server \<Rightarrow> string \<Rightarrow> string \<Rightarrow> (string \<times> string) list \<Rightarrow> collaborator list \<Rightarrow> int
     \<Rightarrow> trace \<Rightarrow> ((error + collaborator list) \<times> trace) option" where
  "get_collaborators_loop srv org_name repo_name headers all_collaborators page tr =
     (let req = \<lparr>url = ''https://api.github.com/repos/'' @ org_name @ ''/'' @ repo_name
                         @ ''/collaborators'',
                 req_headers = headers,
                 params = [(''per_page'', PInt 100), (''page'', PInt page),
                           (''affiliation'', PStr ''all'')]\<rparr>;
          response = repo_collaborators srv req;
          tr = tr @ [Request req]
      in if status_code response \<noteq> 200
         then
           let tr = tr @ [Print (ErrorFetchingCollaborators org_name repo_name
                                   (status_code response))]
           in (case json response of
                 None \<Rightarrow> Some (Inl JSONDecodeError, tr)
               | Some body \<Rightarrow> Some (Inr all_collaborators, tr @ [Print (CollaboratorsBody body)]))
         else
           (case json response of
              None \<Rightarrow> Some (Inl JSONDecodeError, tr)
            | Some collaborators \<Rightarrow>
                if collaborators = [] then Some (Inr all_collaborators, tr)
                else
                  let all_collaborators = all_collaborators @ collaborators;
                      page = page + 1
                  in if (case x_ratelimit_remaining response of
                           None \<Rightarrow> False | Some remaining \<Rightarrow> remaining < 10)
                     then get_collaborators_loop srv org_name repo_name headers
                            all_collaborators page
                            (tr @ [Print RateLimitApproaching, Sleep 60])
                     else get_collaborators_loop srv org_name repo_name headers
                            all_collaborators page tr))"

declare get_collaborators_loop.simps [code]

definition get_collaborators_for_repo ::
  "server \<Rightarrow> string \<Rightarrow> string \<Rightarrow> string \<Rightarrow> trace
     \<Rightarrow> ((error + collaborator list) \<times> trace) option" where
  "get_collaborators_for_repo srv org_name repo_name token tr =
     get_collaborators_loop srv org_name repo_name (get_headers token) [] 1 tr"

text \<open>
  The two nested \<^verbatim>\<open>for\<close> loops of \<^verbatim>\<open>get_user_email\<close>. The loops assign the
  variable \<^verbatim>\<open>email\<close>, so it is threaded through. A loop ends in one of three ways:
  an exception, the \<^verbatim>\<open>return email\<close> of line 123, or falling out of the loop with the
  variable's last value.
\<close>

datatype scan = Raised error | Returned string | Fell_through "string option"

text \<open>
  Line 120: a commit without the key \<^verbatim>\<open>author\<close> is skipped; on an author that is
  \<^verbatim>\<open>null\<close> the call \<^verbatim>\<open>commit['author'].get\<close> raises \<^verbatim>\<open>AttributeError\<close>.
\<close>

fun scan_commits :: "commit list \<Rightarrow> string option \<Rightarrow> scan" where
  "scan_commits [] email = Fell_through email"
| "scan_commits (commit # rest) email =
     (case commit_author commit of
        Absent \<Rightarrow> scan_commits rest email
      | Null \<Rightarrow> Raised AttributeError
      | Present a \<Rightarrow>
          if truthy (author_email a)
          then (case author_email a of
                  None \<Rightarrow> scan_commits rest email
                | Some e \<Rightarrow>
                    if \<not> endswith e ''noreply.github.com'' then Returned e
                    else scan_commits rest (Some e))
          else scan_commits rest email)"

text \<open>
  Lines 117 to 119: an event without the key \<^verbatim>\<open>payload\<close> is skipped; on a payload
  that is \<^verbatim>\<open>null\<close> the call \<^verbatim>\<open>event['payload'].get\<close> raises
  \<^verbatim>\<open>AttributeError\<close>. A payload without the key \<^verbatim>\<open>commits\<close> has the default
  \<^verbatim>\<open>[]\<close>; on \<^verbatim>\<open>commits\<close> that is \<^verbatim>\<open>null\<close> the \<^verbatim>\<open>for\<close> statement raises
  \<^verbatim>\<open>TypeError\<close>. The body of the outer loop for one event comes first, then the loop.
\<close>

definition scan_event :: "event \<Rightarrow> string option \<Rightarrow> scan" where
  "scan_event event email =
     (if event_type event = ''PushEvent'' \<and> event_payload event \<noteq> Absent
      then
        (case event_payload event of
           Absent \<Rightarrow> Fell_through email
         | Null \<Rightarrow> Raised AttributeError
         | Present p \<Rightarrow>
             (case payload_commits p of
                Absent \<Rightarrow> scan_commits [] email
              | Null \<Rightarrow> Raised TypeError
              | Present commits \<Rightarrow> scan_commits commits email))
      else Fell_through email)"

fun scan_events :: "event list \<Rightarrow> string option \<Rightarrow> scan" where
  "scan_events [] email = Fell_through email"
| "scan_events (event # rest) email =
     (case scan_event event email of
        Raised err \<Rightarrow> Raised err
      | Returned e \<Rightarrow> Returned e
      | Fell_through email \<Rightarrow> scan_events rest email)"

text \<open>\<^verbatim>\<open>email if email else "Not available"\<close>.\<close>

definition email_or_not_available :: "string option \<Rightarrow> string" where
  "email_or_not_available email =
     (case email of None \<Rightarrow> ''Not available''
      | Some e \<Rightarrow> if e \<noteq> [] then e else ''Not available'')"

definition get_user_email ::
  "server \<Rightarrow> string \<Rightarrow> string \<Rightarrow> trace \<Rightarrow> (error + string) \<times> trace" where
  "get_user_email srv username token tr =
     (let headers = get_headers token;
          req = \<lparr>url = ''https://api.github.com/users/'' @ username,
                 req_headers = headers, params = []\<rparr>;
          response = users srv req;
          tr = tr @ [Request req]
      in if status_code response \<noteq> 200 then (Inr ''Not available'', tr)
         else
           (case json response of
              None \<Rightarrow> (Inl JSONDecodeError, tr)
            | Some user_data \<Rightarrow>
                let email = user_email user_data
                in if \<not> truthy email
                   then
                     let events_req = \<lparr>url = ''https://api.github.com/users/'' @ username
                                              @ ''/events/public'',
                                       req_headers = headers, params = []\<rparr>;
                         events_response = user_events srv events_req;
                         tr = tr @ [Request events_req]
                     in if status_code events_response = 200
                        then (case json events_response of
                                None \<Rightarrow> (Inl JSONDecodeError, tr)
                              | Some events \<Rightarrow>
                                  (case scan_events events email of
                                     Raised err \<Rightarrow> (Inl err, tr)
                                   | Returned e \<Rightarrow> (Inr e, tr)
                                   | Fell_through email \<Rightarrow>
                                       (Inr (email_or_not_available email), tr)))
                        else (Inr (email_or_not_available email), tr)
                   else (Inr (email_or_not_available email), tr)))"

definition get_permission_level :: "(string \<rightharpoonup> bool) \<Rightarrow> string" where
  "get_permission_level permissions =
     (if dict_get permissions ''admin'' False then ''Admin''
      else if dict_get permissions ''maintain'' False then ''Maintain''
      else if dict_get permissions ''push'' False then ''Write''
      else if dict_get permissions ''triage'' False then ''Triage''
      else if dict_get permissions ''pull'' False then ''Read''
      else ''Unknown'')"

text \<open>
  The three nested \<^verbatim>\<open>for\<close> loops of \<^verbatim>\<open>generate_report\<close>, innermost first. An
  exception raised by a call leaves the loops at once.
\<close>

fun report_collaborators ::
  "server \<Rightarrow> string \<Rightarrow> string \<Rightarrow> string \<Rightarrow> collaborator list \<Rightarrow> trace
     \<Rightarrow> (error + unit) \<times> trace" where
  "report_collaborators srv org_name repo_name token [] tr = (Inr (), tr)"
| "report_collaborators srv org_name repo_name token (collaborator # rest) tr =
     (let username = collab_login collaborator
      in case get_user_email srv username token tr of
           (Inl err, tr) \<Rightarrow> (Inl err, tr)
         | (Inr email, tr) \<Rightarrow>
             let permission = get_permission_level (collab_permissions collaborator)
             in report_collaborators srv org_name repo_name token rest
                  (tr @ [WriteRow [org_name, repo_name, username, email, permission]]))"

fun report_repos ::
  "server \<Rightarrow> string \<Rightarrow> string \<Rightarrow> repo list \<Rightarrow> trace \<Rightarrow> ((error + unit) \<times> trace) option" where
  "report_repos srv org_name token [] tr = Some (Inr (), tr)"
| "report_repos srv org_name token (repo # rest) tr =
     (let repo_name = name repo;
          tr = tr @ [Print (ProcessingRepository repo_name)]
      in case get_collaborators_for_repo srv org_name repo_name token tr of
           None \<Rightarrow> None
         | Some (Inl err, tr) \<Rightarrow> Some (Inl err, tr)
         | Some (Inr collaborators, tr) \<Rightarrow>
             (case report_collaborators srv org_name repo_name token collaborators tr of
                (Inl err, tr) \<Rightarrow> Some (Inl err, tr)
              | (Inr _, tr) \<Rightarrow>
                  report_repos srv org_name token rest
                    (tr @ [Print (AddedCollaborators (length collaborators) repo_name)])))"

fun report_orgs ::
  "server \<Rightarrow> string list \<Rightarrow> string \<Rightarrow> trace \<Rightarrow> ((error + unit) \<times> trace) option" where
  "report_orgs srv [] token tr = Some (Inr (), tr)"
| "report_orgs srv (org_name # rest) token tr =
     (let tr = tr @ [Print (ProcessingOrganization org_name)]
      in case get_repos_for_org srv org_name token tr of
           None \<Rightarrow> None
         | Some (Inl err, tr) \<Rightarrow> Some (Inl err, tr)
         | Some (Inr repos, tr) \<Rightarrow>
             let tr = tr @ [Print (FoundRepositories (length repos) org_name)]
             in (case report_repos srv org_name token repos tr of
                   None \<Rightarrow> None
                 | Some (Inl err, tr) \<Rightarrow> Some (Inl err, tr)
                 | Some (Inr _, tr) \<Rightarrow> report_orgs srv rest token tr))"

text \<open>
  \<^verbatim>\<open>org_names\<close> empty stands for both \<^verbatim>\<open>[]\<close> and \<^verbatim>\<open>None\<close>: the test
  \<^verbatim>\<open>not org_names\<close> takes the same branch for either. An exception leaves the
  \<^verbatim>\<open>with\<close> block, which closes the file, and skips the final \<^verbatim>\<open>print\<close>.
\<close>

definition generate_report ::
  "server \<Rightarrow> string list \<Rightarrow> string \<Rightarrow> string \<Rightarrow> trace \<Rightarrow> ((error + unit) \<times> trace) option" where
  "generate_report srv org_names output_file token tr =
     (let tr = tr @ [OpenWrite output_file];
          tr = tr @ [WriteRow [''Organization'', ''Repo Name'', ''User Name'', ''Email'',
                               ''Permission'']];
          (resolved, tr) =
             (if org_names = []
              then
                (case get_organizations srv token tr of
                   (Inl err, tr) \<Rightarrow> (Inl err, tr)
                 | (Inr orgs, tr) \<Rightarrow>
                     let org_names = map org_login orgs
                     in (Inr org_names,
                         tr @ [Print (FoundOrganizations (length org_names) org_names)]))
              else (Inr org_names, tr))
      in case resolved of
           Inl err \<Rightarrow> Some (Inl err, tr @ [CloseFile output_file])
         | Inr org_names \<Rightarrow>
             (case report_orgs srv org_names token tr of
                None \<Rightarrow> None
              | Some (Inl err, tr) \<Rightarrow> Some (Inl err, tr @ [CloseFile output_file])
              | Some (Inr _, tr) \<Rightarrow>
                  Some (Inr (), tr @ [CloseFile output_file,
                                      Print (ReportGenerated output_file)])))"

section \<open>Vocabulary of the statements\<close>

subsection \<open>Observations on a trace\<close>

text \<open>The requests of a trace, and the rows written to the output file, in order.\<close>

fun requests_of :: "trace \<Rightarrow> request list" where
  "requests_of [] = []"
| "requests_of (Request r # tr) = r # requests_of tr"
| "requests_of (_ # tr) = requests_of tr"

fun written_rows :: "trace \<Rightarrow> string list list" where
  "written_rows [] = []"
| "written_rows (WriteRow row # tr) = row # written_rows tr"
| "written_rows (_ # tr) = written_rows tr"

text \<open>The rows after the first one.\<close>

definition data_rows :: "trace \<Rightarrow> string list list" where
  "data_rows t = tl (written_rows t)"

text \<open>
  How many items a fetch returned and how many requests it has issued (nothing for a
  fetch that raised or never returned).
\<close>

definition fetch_summary :: "((error + 'a list) \<times> trace) option \<Rightarrow> (nat \<times> nat) option" where
  "fetch_summary result =
     (case result of
        Some (Inr items, t) \<Rightarrow> Some (length items, length (requests_of t))
      | _ \<Rightarrow> None)"

text \<open>The header row the specification names.\<close>

definition header_row :: "string list" where
  "header_row = [''Organization'', ''Repo Name'', ''User Name'', ''Email'', ''Permission'']"

subsection \<open>Permission levels, following the specification\<close>

text \<open>
  The classifier as the specification words it: a fixed precedence list of flags with
  their levels, the first flag of the list that is set wins, \<open>Unknown\<close> when none is.
\<close>

definition precedence :: "(string \<times> string) list" where
  "precedence =
     [(''admin'', ''Admin''), (''maintain'', ''Maintain''), (''push'', ''Write''),
      (''triage'', ''Triage''), (''pull'', ''Read'')]"

definition classify_spec :: "(string \<rightharpoonup> bool) \<Rightarrow> string" where
  "classify_spec flags =
     (case find (\<lambda>(flag, level). dict_get flags flag False) precedence of
        None \<Rightarrow> ''Unknown''
      | Some (flag, level) \<Rightarrow> level)"

subsection \<open>Requests and pages\<close>

text \<open>The requests the program builds, by endpoint.\<close>

definition orgs_request :: "string \<Rightarrow> request" where
  "orgs_request token =
     \<lparr>url = ''https://api.github.com/user/orgs'', req_headers = get_headers token, params = []\<rparr>"

definition profile_request :: "string \<Rightarrow> string \<Rightarrow> request" where
  "profile_request username token =
     \<lparr>url = ''https://api.github.com/users/'' @ username,
      req_headers = get_headers token, params = []\<rparr>"

definition events_request :: "string \<Rightarrow> string \<Rightarrow> request" where
  "events_request username token =
     \<lparr>url = ''https://api.github.com/users/'' @ username @ ''/events/public'',
      req_headers = get_headers token, params = []\<rparr>"

definition repos_request :: "string \<Rightarrow> string \<Rightarrow> int \<Rightarrow> request" where
  "repos_request org_name token page =
     \<lparr>url = ''https://api.github.com/orgs/'' @ org_name @ ''/repos'',
      req_headers = get_headers token,
      params = [(''per_page'', PInt 100), (''page'', PInt page)]\<rparr>"

definition collaborators_request :: "string \<Rightarrow> string \<Rightarrow> string \<Rightarrow> int \<Rightarrow> request" where
  "collaborators_request org_name repo_name token page =
     \<lparr>url = ''https://api.github.com/repos/'' @ org_name @ ''/'' @ repo_name @ ''/collaborators'',
      req_headers = get_headers token,
      params = [(''per_page'', PInt 100), (''page'', PInt page), (''affiliation'', PStr ''all'')]\<rparr>"

text \<open>The answer of the server to the request for one page of a listing.\<close>

definition repos_page :: "server \<Rightarrow> string \<Rightarrow> string \<Rightarrow> int \<Rightarrow> repo list response" where
  "repos_page srv org_name token page = org_repos srv (repos_request org_name token page)"

definition collaborators_page ::
  "server \<Rightarrow> string \<Rightarrow> string \<Rightarrow> string \<Rightarrow> int \<Rightarrow> collaborator list response" where
  "collaborators_page srv org_name repo_name token page =
     repo_collaborators srv (collaborators_request org_name repo_name token page)"

text \<open>The list in the body of a response; none when the body is not JSON.\<close>

definition page_items :: "'a list response \<Rightarrow> 'a list" where
  "page_items response = (case json response of None \<Rightarrow> [] | Some items \<Rightarrow> items)"

text \<open>
  The test of lines 56 and 89 on a response, the events that follow a non-empty page, and
  the events of one turn of the loop on such a page.
\<close>

definition low_quota :: "'a response \<Rightarrow> bool" where
  "low_quota response =
     (case x_ratelimit_remaining response of None \<Rightarrow> False | Some remaining \<Rightarrow> remaining < 10)"

definition cooldown :: "'a response \<Rightarrow> trace" where
  "cooldown response = (if low_quota response then [Print RateLimitApproaching, Sleep 60] else [])"

definition page_events :: "(int \<Rightarrow> request) \<Rightarrow> (int \<Rightarrow> 'a response) \<Rightarrow> int \<Rightarrow> trace" where
  "page_events req resp page = Request (req page) # cooldown (resp page)"

text \<open>
  A page that lets the loop go on: status 200 and a body that is a non-empty list. The
  three predicates below describe a listing whose pages \<open>1, ..., n - 1\<close> are such pages
  and whose page \<open>n\<close> is, in turn: the empty list with status 200; a failure whose body
  is JSON; anything that is not such a page.
\<close>

definition full_page :: "'a list response \<Rightarrow> bool" where
  "full_page response \<longleftrightarrow> status_code response = 200 \<and> page_items response \<noteq> []"

definition pages_until_empty :: "(int \<Rightarrow> 'a list response) \<Rightarrow> int \<Rightarrow> bool" where
  "pages_until_empty resp n \<longleftrightarrow>
     1 \<le> n \<and> (\<forall>p\<in>{1..<n}. full_page (resp p)) \<and>
     status_code (resp n) = 200 \<and> json (resp n) = Some []"

definition pages_until_failure :: "(int \<Rightarrow> 'a list response) \<Rightarrow> int \<Rightarrow> bool" where
  "pages_until_failure resp n \<longleftrightarrow>
     1 \<le> n \<and> (\<forall>p\<in>{1..<n}. full_page (resp p)) \<and>
     status_code (resp n) \<noteq> 200 \<and> json (resp n) \<noteq> None"

definition pages_until_stop :: "(int \<Rightarrow> 'a list response) \<Rightarrow> int \<Rightarrow> bool" where
  "pages_until_stop resp n \<longleftrightarrow>
     1 \<le> n \<and> (\<forall>p\<in>{1..<n}. full_page (resp p)) \<and> \<not> full_page (resp n)"

subsection \<open>Timeline emails\<close>

text \<open>
  The commit author emails the scan looks at, in timeline order: those of the push events
  that carry a payload, commit by commit, leaving out commits without an author or with an
  empty author email. A timeline is free of nulls when no push event has a \<^verbatim>\<open>null\<close>
  payload, \<^verbatim>\<open>null\<close> commits or a commit with a \<^verbatim>\<open>null\<close> author.
\<close>

definition masked :: "string \<Rightarrow> bool" where
  "masked e = endswith e ''noreply.github.com''"

definition commit_emails :: "commit list \<Rightarrow> string list" where
  "commit_emails cs =
     List.map_filter
       (\<lambda>c. case commit_author c of
               Present a \<Rightarrow> (case author_email a of
                              None \<Rightarrow> None
                            | Some e \<Rightarrow> if e \<noteq> [] then Some e else None)
             | _ \<Rightarrow> None) cs"

definition event_commits :: "event \<Rightarrow> commit list" where
  "event_commits ev =
     (if event_type ev = ''PushEvent''
      then (case event_payload ev of
              Present p \<Rightarrow> (case payload_commits p of Present cs \<Rightarrow> cs | _ \<Rightarrow> [])
            | _ \<Rightarrow> [])
      else [])"

definition null_free :: "event \<Rightarrow> bool" where
  "null_free ev \<longleftrightarrow>
     event_type ev \<noteq> ''PushEvent'' \<or>
     (case event_payload ev of
        Absent \<Rightarrow> True
      | Null \<Rightarrow> False
      | Present p \<Rightarrow>
          (case payload_commits p of
             Absent \<Rightarrow> True
           | Null \<Rightarrow> False
           | Present cs \<Rightarrow> list_all (\<lambda>c. commit_author c \<noteq> Null) cs))"

definition timeline_emails :: "event list \<Rightarrow> string list" where
  "timeline_emails evs = concat (map (\<lambda>ev. commit_emails (event_commits ev)) evs)"

text \<open>
  What a scan over the emails \<open>es\<close> leaves: the first unmasked one returned, or the
  variable holding the last masked one.
\<close>

definition scan_result :: "string list \<Rightarrow> string option \<Rightarrow> scan" where
  "scan_result es email =
     (case find (\<lambda>e. \<not> masked e) es of
        Some e \<Rightarrow> Returned e
      | None \<Rightarrow> Fell_through (if es = [] then email else Some (last es)))"

subsection \<open>Collections and report rows\<close>

text \<open>
  The organizations the membership listing yields, read off the server's response: an
  exception when the body is not JSON, no organization when the status is not 200, the
  logins of the body otherwise.
\<close>

definition membership :: "server \<Rightarrow> string \<Rightarrow> error + string list" where
  "membership srv token =
     (case json (user_orgs srv (orgs_request token)) of
        None \<Rightarrow> Inl JSONDecodeError
      | Some orgs \<Rightarrow>
          Inr (if status_code (user_orgs srv (orgs_request token)) = 200
               then map org_login orgs else []))"

text \<open>
  The organizations a run works on: the names given, or those of the membership listing
  when none is given.
\<close>

definition resolved_org_names :: "server \<Rightarrow> string \<Rightarrow> string list \<Rightarrow> string list" where
  "resolved_org_names srv token org_names =
     (if org_names = []
      then (case membership srv token of Inl _ \<Rightarrow> [] | Inr logins \<Rightarrow> logins)
      else org_names)"

text \<open>
  The collections as the fetches return them, the email as the resolver returns it, and
  the rows the report owes to them. A fetch that raises or never returns contributes
  nothing here; the statements that use these functions say when the fetches return.
\<close>

definition repos_of :: "server \<Rightarrow> string \<Rightarrow> string \<Rightarrow> repo list" where
  "repos_of srv token org_name =
     (case get_repos_for_org srv org_name token [] of
        Some (Inr repos, _) \<Rightarrow> repos | _ \<Rightarrow> [])"

definition collaborators_of :: "server \<Rightarrow> string \<Rightarrow> string \<Rightarrow> string \<Rightarrow> collaborator list" where
  "collaborators_of srv token org_name repo_name =
     (case get_collaborators_for_repo srv org_name repo_name token [] of
        Some (Inr collaborators, _) \<Rightarrow> collaborators | _ \<Rightarrow> [])"

definition resolved_email :: "server \<Rightarrow> string \<Rightarrow> string \<Rightarrow> string" where
  "resolved_email srv token username =
     (case fst (get_user_email srv username token []) of Inl _ \<Rightarrow> [] | Inr email \<Rightarrow> email)"

definition report_row :: "server \<Rightarrow> string \<Rightarrow> string \<Rightarrow> string \<Rightarrow> collaborator \<Rightarrow> string list" where
  "report_row srv token org_name repo_name collaborator =
     [org_name, repo_name, collab_login collaborator,
      resolved_email srv token (collab_login collaborator),
      get_permission_level (collab_permissions collaborator)]"

definition repo_rows :: "server \<Rightarrow> string \<Rightarrow> string \<Rightarrow> repo \<Rightarrow> string list list" where
  "repo_rows srv token org_name repo =
     map (report_row srv token org_name (name repo))
       (collaborators_of srv token org_name (name repo))"

definition org_rows :: "server \<Rightarrow> string \<Rightarrow> string \<Rightarrow> string list list" where
  "org_rows srv token org_name =
     concat (map (repo_rows srv token org_name) (repos_of srv token org_name))"

text \<open>
  Every listing fetch the run over these organizations makes returns, with a value or
  with an exception: the repository listing of each organization, and the collaborator
  listing of each repository listed.
\<close>

definition listings_return :: "server \<Rightarrow> string \<Rightarrow> string list \<Rightarrow> bool" where
  "listings_return srv token org_names \<longleftrightarrow>
     (\<forall>org_name \<in> set org_names.
        get_repos_for_org srv org_name token [] \<noteq> None \<and>
        (\<forall>repo \<in> set (repos_of srv token org_name).
           get_collaborators_for_repo srv org_name (name repo) token [] \<noteq> None))"

text \<open>
  Nothing in the run over these organizations raises: every listing fetch returns a list
  and every email lookup returns an email.
\<close>

definition fetch_succeeds :: "((error + 'a) \<times> trace) option \<Rightarrow> bool" where
  "fetch_succeeds result = (case result of Some (Inr _, _) \<Rightarrow> True | _ \<Rightarrow> False)"

definition lookup_succeeds :: "server \<Rightarrow> string \<Rightarrow> collaborator \<Rightarrow> bool" where
  "lookup_succeeds srv token collaborator =
     (case fst (get_user_email srv (collab_login collaborator) token []) of
        Inl _ \<Rightarrow> False | Inr _ \<Rightarrow> True)"

definition listings_succeed :: "server \<Rightarrow> string \<Rightarrow> string list \<Rightarrow> bool" where
  "listings_succeed srv token org_names \<longleftrightarrow>
     (\<forall>org_name \<in> set org_names.
        fetch_succeeds (get_repos_for_org srv org_name token []) \<and>
        (\<forall>repo \<in> set (repos_of srv token org_name).
           fetch_succeeds (get_collaborators_for_repo srv org_name (name repo) token []) \<and>
           (\<forall>collaborator \<in> set (collaborators_of srv token org_name (name repo)).
              lookup_succeeds srv token collaborator)))"

text \<open>The events of a run before the first organization is processed.\<close>

definition prologue :: "server \<Rightarrow> string list \<Rightarrow> string \<Rightarrow> string \<Rightarrow> trace" where
  "prologue srv org_names output_file token =
     [OpenWrite output_file, WriteRow header_row] @
     (if org_names = []
      then snd (get_organizations srv token []) @
           (case membership srv token of
              Inl _ \<Rightarrow> []
            | Inr logins \<Rightarrow> [Print (FoundOrganizations (length logins) logins)])
      else [])"

text \<open>The rows \<open>written\<close> of a run that ended with \<open>result\<close>, against the rows \<open>expected\<close>
  of a run that completes: all of them after a normal end, the first of them after an
  exception.\<close>

definition rows_ok :: "error + 'a \<Rightarrow> string list list \<Rightarrow> string list list \<Rightarrow> bool" where
  "rows_ok result written expected =
     (case result of
        Inr _ \<Rightarrow> written = expected
      | Inl _ \<Rightarrow> (\<exists>later. expected = written @ later))"

subsection \<open>Example servers\<close>

text \<open>Responses with a JSON body, without a rate-limit header and with one; and a
  response whose body is not JSON.\<close>

definition ok :: "'a \<Rightarrow> 'a response" where
  "ok body = \<lparr>status_code = 200, json = Some body, x_ratelimit_remaining = None\<rparr>"

definition failed :: "int \<Rightarrow> 'a \<Rightarrow> 'a response" where
  "failed code body = \<lparr>status_code = code, json = Some body, x_ratelimit_remaining = None\<rparr>"

definition ok_remaining :: "'a \<Rightarrow> int \<Rightarrow> 'a response" where
  "ok_remaining body remaining =
     \<lparr>status_code = 200, json = Some body, x_ratelimit_remaining = Some remaining\<rparr>"

definition not_json :: "int \<Rightarrow> 'a response" where
  "not_json code = \<lparr>status_code = code, json = None, x_ratelimit_remaining = None\<rparr>"

text \<open>An integer query parameter of a request (0 when it is missing).\<close>

definition int_param :: "request \<Rightarrow> string \<Rightarrow> int" where
  "int_param r key = (case map_of (params r) key of Some (PInt v) \<Rightarrow> v | _ \<Rightarrow> 0)"

text \<open>
  A collection served in pages, the way the API does: page \<open>p\<close> of size \<open>n\<close> holds the
  items from position \<open>n * (p - 1)\<close> on, at most \<open>n\<close> of them.
\<close>

definition serve_paged :: "'a list \<Rightarrow> request \<Rightarrow> 'a list response" where
  "serve_paged items r =
     ok (take (nat (int_param r ''per_page''))
           (drop (nat (int_param r ''per_page'' * (int_param r ''page'' - 1))) items))"

text \<open>
  A server with no organizations, repositories or collaborators, and profiles without
  email.
\<close>

definition empty_server :: server where
  "empty_server =
     \<lparr>user_orgs = (\<lambda>_. ok []), org_repos = (\<lambda>_. ok []), repo_collaborators = (\<lambda>_. ok []),
      users = (\<lambda>_. ok \<lparr>user_email = None\<rparr>), user_events = (\<lambda>_. ok [])\<rparr>"

definition push_event :: "string list \<Rightarrow> event" where
  "push_event emails =
     \<lparr>event_type = ''PushEvent'',
      event_payload = Present \<lparr>payload_commits =
        Present (map (\<lambda>e. \<lparr>commit_author = Present \<lparr>author_email = Some e\<rparr>\<rparr>) emails)\<rparr>\<rparr>"

text \<open>
  A user without profile email whose timeline has one push event, by a masked author.
\<close>

definition masked_server :: server where
  "masked_server =
     empty_server\<lparr>user_events := (\<lambda>_. ok [push_event [''1+octocat@users.noreply.github.com'']])\<rparr>"

text \<open>
  A collection of 250 repositories and the server that lists it for every organization.
\<close>

definition collection_250 :: "repo list" where
  "collection_250 = map (\<lambda>i. \<lparr>name = ''repo-'' @ replicate (i mod 7) CHR ''x''\<rparr>) [0..<250]"

definition paged_server :: server where
  "paged_server = empty_server\<lparr>org_repos := serve_paged collection_250\<rparr>"

text \<open>Small collections.\<close>

definition three_repos :: "repo list" where
  "three_repos = [\<lparr>name = ''site''\<rparr>, \<lparr>name = ''api''\<rparr>, \<lparr>name = ''docs''\<rparr>]"

definition team :: "collaborator list" where
  "team =
     [\<lparr>collab_login = ''alice'', collab_permissions = [''push'' \<mapsto> True, ''pull'' \<mapsto> True]\<rparr>,
      \<lparr>collab_login = ''bob'', collab_permissions = [''pull'' \<mapsto> True]\<rparr>]"

definition small_server :: server where
  "small_server =
     empty_server\<lparr>org_repos := serve_paged three_repos, repo_collaborators := serve_paged team\<rparr>"

text \<open>
  The repository listing fails with 403 on its second page, the collaborator listing
  with 404 on its first, both with a JSON body.
\<close>

definition flaky_server :: server where
  "flaky_server =
     empty_server\<lparr>org_repos := (\<lambda>r. if int_param r ''page'' = 1 then ok three_repos
                                     else failed 403 []),
                  repo_collaborators := (\<lambda>r. failed 404 [])\<rparr>"

text \<open>
  The same listings behind a gateway that answers 502 with an HTML page where
  \<open>flaky_server\<close> fails.
\<close>

definition gateway_server :: server where
  "gateway_server =
     empty_server\<lparr>org_repos := (\<lambda>r. if int_param r ''page'' = 1 then ok three_repos
                                     else not_json 502),
                  repo_collaborators := (\<lambda>r. not_json 502)\<rparr>"

text \<open>
  Listings that report a remaining quota of 9 (repositories) and 0 (collaborators) on
  their first page, 10 and no header on their second, and stop on the third.
\<close>

definition throttled_server :: server where
  "throttled_server =
     empty_server\<lparr>org_repos := (\<lambda>r. if int_param r ''page'' = 1 then ok_remaining three_repos 9
                                     else if int_param r ''page'' = 2 then ok_remaining three_repos 10
                                     else ok []),
                  repo_collaborators := (\<lambda>r. if int_param r ''page'' = 1 then ok_remaining team 0
                                              else if int_param r ''page'' = 2 then ok team
                                              else failed 500 [])\<rparr>"

text \<open>
  \<open>alice\<close> publishes an email, \<open>bob\<close> does not, any other profile lookup fails with
  404.
\<close>

definition profile_server :: server where
  "profile_server =
     empty_server\<lparr>users := (\<lambda>r. if url r = ''https://api.github.com/users/alice''
                                 then ok \<lparr>user_email = Some ''alice@example.com''\<rparr>
                                 else if url r = ''https://api.github.com/users/bob''
                                 then ok \<lparr>user_email = None\<rparr>
                                 else failed 404 \<lparr>user_email = None\<rparr>)\<rparr>"

text \<open>
  The caller belongs to \<open>acme\<close> and \<open>initech\<close>; every organization has the repository
  \<open>site\<close>, every repository the collaborators of \<open>team\<close>.
\<close>

definition report_server :: server where
  "report_server =
     profile_server\<lparr>user_orgs := (\<lambda>_. ok [\<lparr>org_login = ''acme''\<rparr>, \<lparr>org_login = ''initech''\<rparr>]),
                    org_repos := serve_paged [\<lparr>name = ''site''\<rparr>],
                    repo_collaborators := serve_paged team\<rparr>"

text \<open>
  As before, but the repository listing of \<open>beta\<close> fails with 403 on its first page, and
  that of \<open>delta\<close> lists \<open>docs\<close> on its first page and fails with 500 on the second,
  both with a JSON body.
\<close>

definition abc_server :: server where
  "abc_server =
     report_server\<lparr>org_repos :=
       (\<lambda>r. if url r = ''https://api.github.com/orgs/beta/repos'' then failed 403 []
            else if url r = ''https://api.github.com/orgs/delta/repos''
            then (if int_param r ''page'' = 1 then ok [\<lparr>name = ''docs''\<rparr>] else failed 500 [])
            else serve_paged [\<lparr>name = ''site''\<rparr>] r)\<rparr>"

text \<open>
  As \<open>report_server\<close>, but the repository listing of \<open>beta\<close> is answered by a gateway
  with 502 and an HTML page.
\<close>

definition broken_server :: server where
  "broken_server =
     report_server\<lparr>org_repos :=
       (\<lambda>r. if url r = ''https://api.github.com/orgs/beta/repos'' then not_json 502
            else serve_paged [\<lparr>name = ''site''\<rparr>] r)\<rparr>"

text \<open>
  As \<open>report_server\<close>, but every public timeline holds one push event whose payload is
  \<^verbatim>\<open>null\<close>: the lookup for \<open>bob\<close>, who publishes no email, raises.
\<close>

definition null_payload_server :: server where
  "null_payload_server =
     report_server\<lparr>user_events :=
       (\<lambda>_. ok [\<lparr>event_type = ''PushEvent'', event_payload = Null\<rparr>])\<rparr>"

section \<open>Unfolding the examples\<close>

text \<open>The definitions an example on a concrete server unfolds.\<close>

lemmas example_defs =
  empty_server_def ok_def failed_def ok_remaining_def not_json_def int_param_def
  serve_paged_def repos_request_def collaborators_request_def repos_page_def
  collaborators_page_def full_page_def page_items_def

section \<open>Permission classifier\<close>

text \<open>
  C2: for every capability-flag dict the classifier returns the level of the first flag,
  in the order admin, maintain, push (Write), triage, pull (Read), that is set to true, and
  \<open>Unknown\<close> when none of them is set. It is a function of the flags, with a value for
  every dict, also one with missing or unexpected keys.
\<close>

theorem get_permission_level_precedence:
  "get_permission_level flags = classify_spec flags \<and>
   ((\<forall>flag \<in> set (map fst precedence). \<not> dict_get flags flag False)
      \<longrightarrow> get_permission_level flags = ''Unknown'')"
  by (simp add: get_permission_level_def classify_spec_def precedence_def)

text \<open>
  On \<^verbatim>\<open>{push: true, pull: true}\<close> the level is \<open>Write\<close>; on the empty dict no flag is
  set and the level is \<open>Unknown\<close>.
\<close>

theorem get_permission_level_precedence_witness:
  "get_permission_level [''push'' \<mapsto> True, ''pull'' \<mapsto> True] = ''Write'' \<and>
   list_all (\<lambda>flag. \<not> dict_get (Map.empty :: string \<rightharpoonup> bool) flag False)
     (map fst precedence) \<and>
   get_permission_level Map.empty = ''Unknown''"
  using get_permission_level_precedence [of "[''push'' \<mapsto> True, ''pull'' \<mapsto> True]"]
        get_permission_level_precedence [of Map.empty]
  by (simp add: classify_spec_def precedence_def dict_get_def)

section \<open>Email resolver\<close>

text \<open>
  The two loops of the scan on a timeline free of nulls, in terms of the emails they look
  at: the scan returns the first unmasked email, and otherwise leaves the last masked
  email in the variable \<^verbatim>\<open>email\<close> (the variable keeps its value when there is no
  email at all).
\<close>

lemma scan_result_Nil: "scan_result [] email = Fell_through email"
  by (simp add: scan_result_def)

lemma scan_result_Cons:
  "scan_result (e # es) email = (if \<not> masked e then Returned e else scan_result es (Some e))"
  by (simp add: scan_result_def split: option.splits)

lemma scan_result_append:
  "scan_result (xs @ ys) email =
     (case scan_result xs email of
        Raised err \<Rightarrow> Raised err
      | Returned e \<Rightarrow> Returned e
      | Fell_through email' \<Rightarrow> scan_result ys email')"
  by (induction xs arbitrary: email) (simp_all add: scan_result_Nil scan_result_Cons)

lemma scan_commits_result:
  "list_all (\<lambda>c. commit_author c \<noteq> Null) cs \<Longrightarrow>
   scan_commits cs email = scan_result (commit_emails cs) email"
proof (induction cs arbitrary: email)
  case Nil
  show ?case by (simp add: commit_emails_def List.map_filter_simps scan_result_Nil)
next
  case (Cons c cs)
  then show ?case
    by (simp add: commit_emails_def List.map_filter_simps scan_result_Cons masked_def
          split: option.splits field.splits)
qed

lemma scan_event_result:
  "null_free ev \<Longrightarrow> scan_event ev email = scan_result (commit_emails (event_commits ev)) email"
  by (auto simp: scan_event_def null_free_def event_commits_def scan_commits_result
        commit_emails_def List.map_filter_simps scan_result_Nil split: field.splits)

lemma scan_events_result:
  "list_all null_free evs \<Longrightarrow> scan_events evs email = scan_result (timeline_emails evs) email"
proof (induction evs arbitrary: email)
  case Nil
  show ?case by (simp add: timeline_emails_def scan_result_Nil)
next
  case (Cons ev evs)
  then show ?case
    by (simp add: timeline_emails_def scan_event_result scan_result_append split: scan.splits)
qed

lemma commit_emails_nonempty: "e \<in> set (commit_emails cs) \<Longrightarrow> e \<noteq> []"
  by (induction cs)
     (auto simp: commit_emails_def List.map_filter_simps split: field.splits option.splits if_splits)

text \<open>
  What the resolver answers when the profile has no email and the timeline, free of
  nulls, is fetched: the first unmasked commit author email; when all of them are masked,
  the last one; and \<open>Not available\<close> only when the timeline has no commit author email
  at all.
\<close>

lemma get_user_email_timeline:
  assumes "status_code (users srv (profile_request username token)) = 200"
    and "json (users srv (profile_request username token)) = Some user_data"
    and "\<not> truthy (user_email user_data)"
    and "status_code (user_events srv (events_request username token)) = 200"
    and "json (user_events srv (events_request username token)) = Some events"
    and "list_all null_free events"
  shows "fst (get_user_email srv username token tr) =
     Inr (case find (\<lambda>e. \<not> masked e) (timeline_emails events) of
            Some e \<Rightarrow> e
          | None \<Rightarrow>
              if timeline_emails events = [] then ''Not available''
              else last (timeline_emails events))"
proof -
  let ?es = "timeline_emails events"
  have ne: "e \<noteq> []" if "e \<in> set ?es" for e
    using that by (auto simp: timeline_emails_def dest: commit_emails_nonempty)
  have profile: "email_or_not_available (user_email user_data) = ''Not available''"
    using assms(3) by (cases "user_email user_data") (simp_all add: email_or_not_available_def)
  have "?es \<noteq> [] \<Longrightarrow> last ?es \<noteq> []" using ne by simp
  with assms profile show ?thesis
    by (simp add: get_user_email_def profile_request_def events_request_def Let_def
          scan_events_result scan_result_def email_or_not_available_def
          split: option.splits scan.splits)
qed

text \<open>
  C1: the resolver scans the timeline in order and returns the first commit author email
  that is not a masked address, but it does not answer \<open>Not available\<close> when every
  commit author email is masked: line 121 has stored the masked address in
  \<^verbatim>\<open>email\<close> before line 122 tests it, and the final \<^verbatim>\<open>return\<close> of line 125
  hands it out. Here the profile of \<open>octocat\<close> has no email and the timeline holds one
  push event with one commit by a masked author; the resolver answers with the masked
  address.
\<close>

theorem masked_email_returned:
  "get_user_email masked_server ''octocat'' ''tok'' [] =
     (Inr ''1+octocat@users.noreply.github.com'',
      [Request (profile_request ''octocat'' ''tok''), Request (events_request ''octocat'' ''tok'')])"
  by (simp add: get_user_email_def masked_server_def empty_server_def ok_def push_event_def
        profile_request_def events_request_def endswith_def email_or_not_available_def
        scan_event_def Let_def)

text \<open>
  C8: when the profile lookup answers 200 with a non-empty email, the resolver returns that
  email and the only request it has issued is the profile request: the event timeline is
  never fetched.
\<close>

theorem profile_email_short_circuit:
  assumes "status_code (users srv (profile_request username token)) = 200"
    and "json (users srv (profile_request username token)) = Some user_data"
    and "user_email user_data = Some e"
    and "e \<noteq> []"
  shows "get_user_email srv username token tr =
           (Inr e, tr @ [Request (profile_request username token)])"
  using assms by (simp add: get_user_email_def profile_request_def email_or_not_available_def Let_def)

text \<open>The profile of \<open>alice\<close> carries an email.\<close>

theorem profile_email_short_circuit_witness:
  "get_user_email profile_server ''alice'' ''tok'' [] =
     (Inr ''alice@example.com'', [Request (profile_request ''alice'' ''tok'')])"
  using profile_email_short_circuit
          [of profile_server "''alice''" "''tok''" "\<lparr>user_email = Some ''alice@example.com''\<rparr>"
              "''alice@example.com''" "[]"]
  by (simp add: profile_server_def empty_server_def ok_def profile_request_def)

text \<open>
  C9: when the profile lookup answers anything but 200, the resolver returns
  \<open>Not available\<close> and the only request it has issued is the profile request: the
  event-timeline request is never sent.
\<close>

theorem profile_failure_short_circuit:
  assumes "status_code (users srv (profile_request username token)) \<noteq> 200"
  shows "get_user_email srv username token tr =
           (Inr ''Not available'', tr @ [Request (profile_request username token)])"
  using assms by (simp add: get_user_email_def profile_request_def Let_def)

text \<open>The profile lookup of \<open>ghost\<close> answers 404.\<close>

theorem profile_failure_short_circuit_witness:
  "get_user_email profile_server ''ghost'' ''tok'' [] =
     (Inr ''Not available'', [Request (profile_request ''ghost'' ''tok'')])"
  using profile_failure_short_circuit [of profile_server "''ghost''" "''tok''" "[]"]
  by (simp add: profile_server_def empty_server_def failed_def profile_request_def)

section \<open>Paginated listings\<close>

lemma written_rows_append: "written_rows (xs @ ys) = written_rows xs @ written_rows ys"
  by (induction xs rule: written_rows.induct) simp_all

lemma requests_of_append: "requests_of (xs @ ys) = requests_of xs @ requests_of ys"
  by (induction xs rule: requests_of.induct) simp_all

lemma requests_of_page_events:
  "requests_of (concat (map (page_events req resp) ps)) = map req ps"
  by (induction ps) (simp_all add: page_events_def cooldown_def requests_of_append)

lemma upto_snoc: "(1::int) \<le> n \<Longrightarrow> [1..n] = [1..n - 1] @ [n]"
  using upto_rec2 [of 1 n] by simp

text \<open>
  A loop that steps over every full page steps from page \<open>page\<close> to page \<open>n\<close> when
  the pages in between are full, collecting their items and their events. Both listing
  loops are such loops.
\<close>

lemma paged_loop_skip:
  fixes F :: "'a list \<Rightarrow> int \<Rightarrow> trace \<Rightarrow> ((error + 'a list) \<times> trace) option"
  assumes step: "\<And>acc p tr. full_page (resp p) \<Longrightarrow>
            F acc p tr = F (acc @ page_items (resp p)) (p + 1) (tr @ page_events req resp p)"
  shows "page \<le> n \<Longrightarrow> (\<forall>p. page \<le> p \<and> p < n \<longrightarrow> full_page (resp p)) \<Longrightarrow>
         F acc page tr =
           F (acc @ concat (map (\<lambda>p. page_items (resp p)) [page..n - 1])) n
             (tr @ concat (map (page_events req resp) [page..n - 1]))"
proof (induction "nat (n - page)" arbitrary: page acc tr)
  case 0
  then have "page = n" by simp
  then show ?case by simp
next
  case (Suc k)
  then have lt: "page < n" by linarith
  have full: "full_page (resp page)" using Suc.prems lt by simp
  have k: "k = nat (n - (page + 1))" using Suc.hyps(2) by linarith
  have rest: "\<forall>p. page + 1 \<le> p \<and> p < n \<longrightarrow> full_page (resp p)" using Suc.prems by simp
  have up: "[page..n - 1] = page # [page + 1..n - 1]" using lt by (simp add: upto_rec1)
  have "F acc page tr = F (acc @ page_items (resp page)) (page + 1) (tr @ page_events req resp page)"
    by (rule step [OF full])
  also have "\<dots> = F ((acc @ page_items (resp page))
                       @ concat (map (\<lambda>p. page_items (resp p)) [page + 1..n - 1])) n
                ((tr @ page_events req resp page)
                   @ concat (map (page_events req resp) [page + 1..n - 1]))"
    using lt rest by (intro Suc.hyps(1) [OF k]) simp_all
  finally show ?case by (simp add: up)
qed

lemma get_repos_loop_step:
  assumes "full_page (repos_page srv org_name token p)"
  shows "get_repos_loop srv org_name (get_headers token) acc p tr =
         get_repos_loop srv org_name (get_headers token)
           (acc @ page_items (repos_page srv org_name token p))
           (p + 1) (tr @ page_events (repos_request org_name token) (repos_page srv org_name token) p)"
  using assms
  by (subst get_repos_loop.simps)
     (auto simp: full_page_def page_items_def repos_page_def repos_request_def page_events_def
        cooldown_def low_quota_def Let_def split: option.splits)

lemma get_repos_loop_empty:
  assumes "status_code (repos_page srv org_name token p) = 200"
    and "json (repos_page srv org_name token p) = Some []"
  shows "get_repos_loop srv org_name (get_headers token) acc p tr =
         Some (Inr acc, tr @ [Request (repos_request org_name token p)])"
  using assms
  by (subst get_repos_loop.simps) (simp add: repos_page_def repos_request_def Let_def)

lemma get_repos_loop_failed:
  assumes "status_code (repos_page srv org_name token p) \<noteq> 200"
    and "json (repos_page srv org_name token p) = Some body"
  shows "get_repos_loop srv org_name (get_headers token) acc p tr =
         Some (Inr acc, tr @ [Request (repos_request org_name token p),
                          Print (ErrorFetchingRepositories org_name
                                   (status_code (repos_page srv org_name token p))),
                          Print (ReposBody body)])"
  using assms
  by (subst get_repos_loop.simps) (simp add: repos_page_def repos_request_def Let_def)

lemma get_repos_loop_not_json:
  assumes "json (repos_page srv org_name token p) = None"
  shows "get_repos_loop srv org_name (get_headers token) acc p tr =
         Some (Inl JSONDecodeError,
               tr @ Request (repos_request org_name token p) #
                 (if status_code (repos_page srv org_name token p) \<noteq> 200
                  then [Print (ErrorFetchingRepositories org_name
                                 (status_code (repos_page srv org_name token p)))]
                  else []))"
  using assms
  by (subst get_repos_loop.simps) (simp add: repos_page_def repos_request_def Let_def)

lemma get_repos_loop_stop:
  assumes "\<not> full_page (repos_page srv org_name token n)"
  shows "\<exists>result fin. get_repos_loop srv org_name (get_headers token) acc n tr =
           Some (result, tr @ Request (repos_request org_name token n) # fin)"
proof (cases "json (repos_page srv org_name token n)")
  case None
  from get_repos_loop_not_json [OF this] show ?thesis by blast
next
  case (Some body)
  show ?thesis
  proof (cases "status_code (repos_page srv org_name token n) = 200")
    case True
    with assms Some have "json (repos_page srv org_name token n) = Some []"
      by (simp add: full_page_def page_items_def)
    from get_repos_loop_empty [OF True this] show ?thesis by simp
  next
    case False
    from get_repos_loop_failed [OF this Some] show ?thesis by simp
  qed
qed

lemma get_repos_for_org_skip:
  assumes "1 \<le> n" and "\<forall>p\<in>{1..<n}. full_page (repos_page srv org_name token p)"
  shows "get_repos_for_org srv org_name token tr =
         get_repos_loop srv org_name (get_headers token)
           (concat (map (\<lambda>p. page_items (repos_page srv org_name token p)) [1..n - 1])) n
           (tr @ concat (map (page_events (repos_request org_name token)
                                (repos_page srv org_name token)) [1..n - 1]))"
  unfolding get_repos_for_org_def
  using paged_loop_skip [where F = "get_repos_loop srv org_name (get_headers token)"
      and req = "repos_request org_name token" and resp = "repos_page srv org_name token"
      and page = 1 and n = n and acc = "[]" and tr = tr, OF get_repos_loop_step] assms
  by simp

lemma get_repos_loop_frame:
  assumes "get_repos_loop srv org_name headers acc page tr = Some (result, t)"
  shows "\<exists>rest. t = tr @ rest \<and> written_rows rest = [] \<and>
           (\<forall>tr'. get_repos_loop srv org_name headers acc page tr' = Some (result, tr' @ rest))"
proof -
  let ?Q = "\<lambda>srv org_name headers acc page tr (r :: (error + repo list) \<times> trace).
              \<exists>rest. snd r = tr @ rest \<and> written_rows rest = [] \<and>
                (\<forall>tr'. get_repos_loop srv org_name headers acc page tr' = Some (fst r, tr' @ rest))"
  have "?Q srv org_name headers acc page tr (result, t)"
    apply (rule get_repos_loop.raw_induct [where P = ?Q, OF _ assms])
    subgoal premises prems for loop srv org_name headers acc page tr r
    proof -
      define req where "req = \<lparr>url = ''https://api.github.com/orgs/'' @ org_name @ ''/repos'',
                 req_headers = headers,
                 params = [(''per_page'', PInt 100), (''page'', PInt page)]\<rparr>"
      define response where "response = org_repos srv req"
      note body = prems(2) [unfolded Let_def, folded req_def, folded response_def]
      note unf = get_repos_loop.simps [of srv org_name headers acc page, unfolded Let_def,
          folded req_def, folded response_def]
      show ?thesis
      proof (cases "status_code response = 200 \<and> page_items response \<noteq> []")
        case False
        define fin where "fin =
          (if status_code response \<noteq> 200
           then Request req # Print (ErrorFetchingRepositories org_name (status_code response)) #
                  (case json response of None \<Rightarrow> [] | Some b \<Rightarrow> [Print (ReposBody b)])
           else [Request req])"
        define res where "res =
          (case json response of None \<Rightarrow> Inl JSONDecodeError | Some b \<Rightarrow> Inr acc)"
        have stop: "get_repos_loop srv org_name headers acc page tr' = Some (res, tr' @ fin)"
          for tr'
          using False unf [of tr']
          by (auto simp: fin_def res_def page_items_def split: option.splits)
        have r: "r = (res, tr @ fin)"
          using body False
          by (auto simp: fin_def res_def page_items_def split: option.splits if_splits)
        have "written_rows fin = []"
          by (simp add: fin_def split: option.splits)
        with r stop show ?thesis by (intro exI [of _ fin]) simp
      next
        case True
        then obtain repos where repos: "json response = Some repos" "repos \<noteq> []"
          by (auto simp: page_items_def split: option.splits)
        let ?evs = "Request req # (if (case x_ratelimit_remaining response of
                           None \<Rightarrow> False | Some remaining \<Rightarrow> remaining < 10)
                     then [Print RateLimitApproaching, Sleep 60] else [])"
        from True repos body
        have "loop srv org_name headers (acc @ repos) (page + 1) (tr @ ?evs) = Some r"
          by (simp split: if_splits)
        from prems(1) [OF this] obtain rest where
          rest: "snd r = (tr @ ?evs) @ rest" "written_rows rest = []"
            "\<And>tr'. get_repos_loop srv org_name headers (acc @ repos) (page + 1) tr'
                     = Some (fst r, tr' @ rest)"
          by blast
        have "get_repos_loop srv org_name headers acc page tr' = Some (fst r, tr' @ ?evs @ rest)" for tr'
          using True repos rest(3) [of "tr' @ ?evs"] unf [of tr'] by (simp split: if_splits)
        with rest(1,2) show ?thesis
          by (intro exI [of _ "?evs @ rest"]) (simp add: written_rows_append)
      qed
    qed
    done
  then show ?thesis by simp
qed

lemma get_collaborators_loop_step:
  assumes "full_page (collaborators_page srv org_name repo_name token p)"
  shows "get_collaborators_loop srv org_name repo_name (get_headers token) acc p tr =
         get_collaborators_loop srv org_name repo_name (get_headers token)
           (acc @ page_items (collaborators_page srv org_name repo_name token p))
           (p + 1) (tr @ page_events (collaborators_request org_name repo_name token) (collaborators_page srv org_name repo_name token) p)"
  using assms
  by (subst get_collaborators_loop.simps)
     (auto simp: full_page_def page_items_def collaborators_page_def collaborators_request_def page_events_def
        cooldown_def low_quota_def Let_def split: option.splits)

lemma get_collaborators_loop_empty:
  assumes "status_code (collaborators_page srv org_name repo_name token p) = 200"
    and "json (collaborators_page srv org_name repo_name token p) = Some []"
  shows "get_collaborators_loop srv org_name repo_name (get_headers token) acc p tr =
         Some (Inr acc, tr @ [Request (collaborators_request org_name repo_name token p)])"
  using assms
  by (subst get_collaborators_loop.simps) (simp add: collaborators_page_def collaborators_request_def Let_def)

lemma get_collaborators_loop_failed:
  assumes "status_code (collaborators_page srv org_name repo_name token p) \<noteq> 200"
    and "json (collaborators_page srv org_name repo_name token p) = Some body"
  shows "get_collaborators_loop srv org_name repo_name (get_headers token) acc p tr =
         Some (Inr acc, tr @ [Request (collaborators_request org_name repo_name token p),
                          Print (ErrorFetchingCollaborators org_name repo_name
                                   (status_code (collaborators_page srv org_name repo_name token p))),
                          Print (CollaboratorsBody body)])"
  using assms
  by (subst get_collaborators_loop.simps) (simp add: collaborators_page_def collaborators_request_def Let_def)

lemma get_collaborators_loop_not_json:
  assumes "json (collaborators_page srv org_name repo_name token p) = None"
  shows "get_collaborators_loop srv org_name repo_name (get_headers token) acc p tr =
         Some (Inl JSONDecodeError,
               tr @ Request (collaborators_request org_name repo_name token p) #
                 (if status_code (collaborators_page srv org_name repo_name token p) \<noteq> 200
                  then [Print (ErrorFetchingCollaborators org_name repo_name
                                 (status_code (collaborators_page srv org_name repo_name token p)))]
                  else []))"
  using assms
  by (subst get_collaborators_loop.simps) (simp add: collaborators_page_def collaborators_request_def Let_def)

lemma get_collaborators_loop_stop:
  assumes "\<not> full_page (collaborators_page srv org_name repo_name token n)"
  shows "\<exists>result fin. get_collaborators_loop srv org_name repo_name (get_headers token) acc n tr =
           Some (result, tr @ Request (collaborators_request org_name repo_name token n) # fin)"
proof (cases "json (collaborators_page srv org_name repo_name token n)")
  case None
  from get_collaborators_loop_not_json [OF this] show ?thesis by blast
next
  case (Some body)
  show ?thesis
  proof (cases "status_code (collaborators_page srv org_name repo_name token n) = 200")
    case True
    with assms Some have "json (collaborators_page srv org_name repo_name token n) = Some []"
      by (simp add: full_page_def page_items_def)
    from get_collaborators_loop_empty [OF True this] show ?thesis by simp
  next
    case False
    from get_collaborators_loop_failed [OF this Some] show ?thesis by simp
  qed
qed

lemma get_collaborators_for_repo_skip:
  assumes "1 \<le> n" and "\<forall>p\<in>{1..<n}. full_page (collaborators_page srv org_name repo_name token p)"
  shows "get_collaborators_for_repo srv org_name repo_name token tr =
         get_collaborators_loop srv org_name repo_name (get_headers token)
           (concat (map (\<lambda>p. page_items (collaborators_page srv org_name repo_name token p)) [1..n - 1])) n
           (tr @ concat (map (page_events (collaborators_request org_name repo_name token)
                                (collaborators_page srv org_name repo_name token)) [1..n - 1]))"
  unfolding get_collaborators_for_repo_def
  using paged_loop_skip [where F = "get_collaborators_loop srv org_name repo_name (get_headers token)"
      and req = "collaborators_request org_name repo_name token" and resp = "collaborators_page srv org_name repo_name token"
      and page = 1 and n = n and acc = "[]" and tr = tr, OF get_collaborators_loop_step] assms
  by simp

lemma get_collaborators_loop_frame:
  assumes "get_collaborators_loop srv org_name repo_name headers acc page tr = Some (result, t)"
  shows "\<exists>rest. t = tr @ rest \<and> written_rows rest = [] \<and>
           (\<forall>tr'. get_collaborators_loop srv org_name repo_name headers acc page tr' = Some (result, tr' @ rest))"
proof -
  let ?Q = "\<lambda>srv org_name repo_name headers acc page tr (r :: (error + collaborator list) \<times> trace).
              \<exists>rest. snd r = tr @ rest \<and> written_rows rest = [] \<and>
                (\<forall>tr'. get_collaborators_loop srv org_name repo_name headers acc page tr' = Some (fst r, tr' @ rest))"
  have "?Q srv org_name repo_name headers acc page tr (result, t)"
    apply (rule get_collaborators_loop.raw_induct [where P = ?Q, OF _ assms])
    subgoal premises prems for loop srv org_name repo_name headers acc page tr r
    proof -
      define req where "req = \<lparr>url = ''https://api.github.com/repos/'' @ org_name @ ''/'' @ repo_name
                         @ ''/collaborators'',
                 req_headers = headers,
                 params = [(''per_page'', PInt 100), (''page'', PInt page),
                           (''affiliation'', PStr ''all'')]\<rparr>"
      define response where "response = repo_collaborators srv req"
      note body = prems(2) [unfolded Let_def, folded req_def, folded response_def]
      note unf = get_collaborators_loop.simps [of srv org_name repo_name headers acc page, unfolded Let_def,
          folded req_def, folded response_def]
      show ?thesis
      proof (cases "status_code response = 200 \<and> page_items response \<noteq> []")
        case False
        define fin where "fin =
          (if status_code response \<noteq> 200
           then Request req # Print (ErrorFetchingCollaborators org_name repo_name (status_code response)) #
                  (case json response of None \<Rightarrow> [] | Some b \<Rightarrow> [Print (CollaboratorsBody b)])
           else [Request req])"
        define res where "res =
          (case json response of None \<Rightarrow> Inl JSONDecodeError | Some b \<Rightarrow> Inr acc)"
        have stop: "get_collaborators_loop srv org_name repo_name headers acc page tr' = Some (res, tr' @ fin)"
          for tr'
          using False unf [of tr']
          by (auto simp: fin_def res_def page_items_def split: option.splits)
        have r: "r = (res, tr @ fin)"
          using body False
          by (auto simp: fin_def res_def page_items_def split: option.splits if_splits)
        have "written_rows fin = []"
          by (simp add: fin_def split: option.splits)
        with r stop show ?thesis by (intro exI [of _ fin]) simp
      next
        case True
        then obtain repos where repos: "json response = Some repos" "repos \<noteq> []"
          by (auto simp: page_items_def split: option.splits)
        let ?evs = "Request req # (if (case x_ratelimit_remaining response of
                           None \<Rightarrow> False | Some remaining \<Rightarrow> remaining < 10)
                     then [Print RateLimitApproaching, Sleep 60] else [])"
        from True repos body
        have "loop srv org_name repo_name headers (acc @ repos) (page + 1) (tr @ ?evs) = Some r"
          by (simp split: if_splits)
        from prems(1) [OF this] obtain rest where
          rest: "snd r = (tr @ ?evs) @ rest" "written_rows rest = []"
            "\<And>tr'. get_collaborators_loop srv org_name repo_name headers (acc @ repos) (page + 1) tr'
                     = Some (fst r, tr' @ rest)"
          by blast
        have "get_collaborators_loop srv org_name repo_name headers acc page tr' = Some (fst r, tr' @ ?evs @ rest)" for tr'
          using True repos rest(3) [of "tr' @ ?evs"] unf [of tr'] by (simp split: if_splits)
        with rest(1,2) show ?thesis
          by (intro exI [of _ "?evs @ rest"]) (simp add: written_rows_append)
      qed
    qed
    done
  then show ?thesis by simp
qed

lemma page_events_split:
  assumes "1 \<le> p" and "p < n"
  shows "\<exists>post. concat (map (page_events req resp) [1..n - 1]) @ Request (req n) # fin =
           concat (map (page_events req resp) [1..p - 1]) @ [Request (req p)] @
           (case x_ratelimit_remaining (resp p) of
              None \<Rightarrow> []
            | Some remaining \<Rightarrow>
                if remaining < 10 then [Print RateLimitApproaching, Sleep 60] else []) @
           [Request (req (p + 1))] @ post"
proof -
  have split: "[1..n - 1] = [1..p - 1] @ p # [p + 1..n - 1]"
    using assms by (intro upto_split3) simp_all
  have cd: "cooldown (resp p) =
      (case x_ratelimit_remaining (resp p) of
              None \<Rightarrow> []
            | Some remaining \<Rightarrow>
                if remaining < 10 then [Print RateLimitApproaching, Sleep 60] else [])"
    by (simp add: cooldown_def low_quota_def split: option.splits)
  have "\<exists>post. concat (map (page_events req resp) [p + 1..n - 1]) @ Request (req n) # fin =
          Request (req (p + 1)) # post"
  proof (cases "p + 1 = n")
    case True
    then show ?thesis by simp
  next
    case False
    with assms have "[p + 1..n - 1] = (p + 1) # [p + 1 + 1..n - 1]"
      by (intro upto_rec1) simp
    then show ?thesis by (simp add: page_events_def)
  qed
  then obtain post where
    "concat (map (page_events req resp) [p + 1..n - 1]) @ Request (req n) # fin =
          Request (req (p + 1)) # post" ..
  then show ?thesis
    by (intro exI [of _ post]) (simp add: split page_events_def cd)
qed

text \<open>
  C3, as the code has it: for the repository listing and for the collaborator listing (the
  two paginated fetches; the organization listing is a single request without page
  parameters), when pages \<open>1, ..., n - 1\<close> answer 200 with non-empty lists and page \<open>n\<close>
  answers 200 with an empty list, the fetch returns the concatenation of pages
  \<open>1, ..., n - 1\<close> in order, and the requests it has issued are exactly those for pages
  \<open>1, ..., n\<close> in order, each with \<^verbatim>\<open>per_page\<close> 100: the loop halts at the first
  empty page and not before, so \<open>n - 1\<close> pages of items cost \<open>n\<close> requests.
\<close>

theorem pagination_until_empty_page:
  "(pages_until_empty (repos_page srv org_name token) n \<longrightarrow>
      (\<exists>t. get_repos_for_org srv org_name token tr =
              Some (Inr (concat (map (\<lambda>p. page_items (repos_page srv org_name token p))
                                   [1..n - 1])), t) \<and>
           requests_of t = requests_of tr @ map (repos_request org_name token) [1..n])) \<and>
   (pages_until_empty (collaborators_page srv org_name repo_name token) m \<longrightarrow>
      (\<exists>t. get_collaborators_for_repo srv org_name repo_name token tr =
              Some (Inr (concat (map (\<lambda>p. page_items
                                           (collaborators_page srv org_name repo_name token p))
                                   [1..m - 1])), t) \<and>
           requests_of t =
             requests_of tr @ map (collaborators_request org_name repo_name token) [1..m])) \<and>
   params (repos_request org_name token p) = [(''per_page'', PInt 100), (''page'', PInt p)] \<and>
   params (collaborators_request org_name repo_name token p) =
     [(''per_page'', PInt 100), (''page'', PInt p), (''affiliation'', PStr ''all'')]"
proof (intro conjI impI)
  assume h: "pages_until_empty (repos_page srv org_name token) n"
  then have n: "1 \<le> n" and full: "\<forall>p\<in>{1..<n}. full_page (repos_page srv org_name token p)"
    and last: "status_code (repos_page srv org_name token n) = 200"
      "json (repos_page srv org_name token n) = Some []"
    by (simp_all add: pages_until_empty_def)
  show "\<exists>t. get_repos_for_org srv org_name token tr =
              Some (Inr (concat (map (\<lambda>p. page_items (repos_page srv org_name token p))
                                   [1..n - 1])), t) \<and>
           requests_of t = requests_of tr @ map (repos_request org_name token) [1..n]"
    by (simp add: get_repos_for_org_skip [OF n full] get_repos_loop_empty [OF last]
          requests_of_append requests_of_page_events upto_snoc [OF n])
next
  assume h: "pages_until_empty (collaborators_page srv org_name repo_name token) m"
  then have m: "1 \<le> m"
    and full: "\<forall>p\<in>{1..<m}. full_page (collaborators_page srv org_name repo_name token p)"
    and last: "status_code (collaborators_page srv org_name repo_name token m) = 200"
      "json (collaborators_page srv org_name repo_name token m) = Some []"
    by (simp_all add: pages_until_empty_def)
  show "\<exists>t. get_collaborators_for_repo srv org_name repo_name token tr =
              Some (Inr (concat (map (\<lambda>p. page_items
                                           (collaborators_page srv org_name repo_name token p))
                                   [1..m - 1])), t) \<and>
           requests_of t =
             requests_of tr @ map (collaborators_request org_name repo_name token) [1..m]"
    by (simp add: get_collaborators_for_repo_skip [OF m full] get_collaborators_loop_empty [OF last]
          requests_of_append requests_of_page_events upto_snoc [OF m])
qed (simp_all add: repos_request_def collaborators_request_def)

text \<open>
  A listing of three repositories and one of two collaborators: one page of items, then
  the empty page, two requests each.
\<close>

theorem pagination_until_empty_page_witness:
  "map_option fst (get_repos_for_org small_server ''acme'' ''tok'' []) = Some (Inr three_repos) \<and>
   map_option (requests_of \<circ> snd) (get_repos_for_org small_server ''acme'' ''tok'' []) =
     Some [repos_request ''acme'' ''tok'' 1, repos_request ''acme'' ''tok'' 2] \<and>
   map_option fst (get_collaborators_for_repo small_server ''acme'' ''site'' ''tok'' []) =
     Some (Inr team) \<and>
   map_option (requests_of \<circ> snd)
       (get_collaborators_for_repo small_server ''acme'' ''site'' ''tok'' []) =
     Some [collaborators_request ''acme'' ''site'' ''tok'' 1,
           collaborators_request ''acme'' ''site'' ''tok'' 2]"
proof -
  have r: "pages_until_empty (repos_page small_server ''acme'' ''tok'') 2"
    by (simp add: pages_until_empty_def small_server_def three_repos_def example_defs)
  have c: "pages_until_empty (collaborators_page small_server ''acme'' ''site'' ''tok'') 2"
    by (simp add: pages_until_empty_def small_server_def team_def example_defs)
  have rj: "page_items (repos_page small_server ''acme'' ''tok'' 1) = three_repos"
    by (simp add: small_server_def three_repos_def example_defs)
  have cj: "page_items (collaborators_page small_server ''acme'' ''site'' ''tok'' 1) = team"
    by (simp add: small_server_def team_def example_defs)
  have up: "[1..2 - 1] = [1::int]" "[1..2] = [1, 2::int]"
    by (simp_all add: upto.simps)
  from pagination_until_empty_page [of small_server "''acme''" "''tok''" 2 "[]" "''site''" 2 1] r c
  obtain t1 t2 where
    "get_repos_for_org small_server ''acme'' ''tok'' [] = Some (Inr three_repos, t1)"
    "requests_of t1 = [repos_request ''acme'' ''tok'' 1, repos_request ''acme'' ''tok'' 2]"
    "get_collaborators_for_repo small_server ''acme'' ''site'' ''tok'' [] = Some (Inr team, t2)"
    "requests_of t2 = [collaborators_request ''acme'' ''site'' ''tok'' 1,
                       collaborators_request ''acme'' ''site'' ''tok'' 2]"
    by (auto simp: rj cj up)
  then show ?thesis by simp
qed

text \<open>
  C3, the example of the claim: a collection of 250 items served in pages of 100 costs
  four requests, not three. Pages 1 and 2 hold 100 items, page 3 holds 50, and only the
  empty page 4 ends the loop.
\<close>

theorem pagination_250_counterexample:
  "length collection_250 = 250 \<and>
   fetch_summary (get_repos_for_org paged_server ''acme'' ''tok'' []) = Some (250, 4) \<and>
   fetch_summary (get_repos_for_org paged_server ''acme'' ''tok'' []) \<noteq> Some (250, 3)"
proof -
  have run: "fetch_summary (get_repos_for_org paged_server ''acme'' ''tok'' []) = Some (250, 4)"
    by code_simp
  show ?thesis unfolding run by (simp add: collection_250_def)
qed

text \<open>
  C4, as the code has it: for the repository listing and for the collaborator listing, when
  pages \<open>1, ..., n - 1\<close> answer 200 with non-empty lists and page \<open>n\<close> answers with a
  status other than 200 and a body that is JSON, the fetch returns normally with exactly
  the items of pages \<open>1, ..., n - 1\<close> (the empty list when \<open>n = 1\<close>); after the request
  for page \<open>n\<close> it prints the status and the body and does nothing more: page \<open>n\<close> is
  requested once.
\<close>

theorem listing_failure_returns_accumulated:
  "(pages_until_failure (repos_page srv org_name token) n \<longrightarrow>
      get_repos_for_org srv org_name token tr =
        Some (Inr (concat (map (\<lambda>p. page_items (repos_page srv org_name token p)) [1..n - 1])),
              tr @ concat (map (page_events (repos_request org_name token)
                                  (repos_page srv org_name token)) [1..n - 1])
                 @ [Request (repos_request org_name token n),
                    Print (ErrorFetchingRepositories org_name
                             (status_code (repos_page srv org_name token n))),
                    Print (ReposBody (page_items (repos_page srv org_name token n)))])) \<and>
   (pages_until_failure (collaborators_page srv org_name repo_name token) m \<longrightarrow>
      get_collaborators_for_repo srv org_name repo_name token tr =
        Some (Inr (concat (map (\<lambda>p. page_items
                                     (collaborators_page srv org_name repo_name token p))
                             [1..m - 1])),
              tr @ concat (map (page_events (collaborators_request org_name repo_name token)
                                  (collaborators_page srv org_name repo_name token)) [1..m - 1])
                 @ [Request (collaborators_request org_name repo_name token m),
                    Print (ErrorFetchingCollaborators org_name repo_name
                             (status_code (collaborators_page srv org_name repo_name token m))),
                    Print (CollaboratorsBody
                             (page_items (collaborators_page srv org_name repo_name token m)))]))"
proof (intro conjI impI)
  assume "pages_until_failure (repos_page srv org_name token) n"
  then obtain body where n: "1 \<le> n"
    and full: "\<forall>p\<in>{1..<n}. full_page (repos_page srv org_name token p)"
    and bad: "status_code (repos_page srv org_name token n) \<noteq> 200"
    and body: "json (repos_page srv org_name token n) = Some body"
    by (auto simp: pages_until_failure_def)
  from body have "page_items (repos_page srv org_name token n) = body"
    by (simp add: page_items_def)
  then show "get_repos_for_org srv org_name token tr =
        Some (Inr (concat (map (\<lambda>p. page_items (repos_page srv org_name token p)) [1..n - 1])),
              tr @ concat (map (page_events (repos_request org_name token)
                                  (repos_page srv org_name token)) [1..n - 1])
                 @ [Request (repos_request org_name token n),
                    Print (ErrorFetchingRepositories org_name
                             (status_code (repos_page srv org_name token n))),
                    Print (ReposBody (page_items (repos_page srv org_name token n)))])"
    by (simp add: get_repos_for_org_skip [OF n full] get_repos_loop_failed [OF bad body])
next
  assume "pages_until_failure (collaborators_page srv org_name repo_name token) m"
  then obtain body where m: "1 \<le> m"
    and full: "\<forall>p\<in>{1..<m}. full_page (collaborators_page srv org_name repo_name token p)"
    and bad: "status_code (collaborators_page srv org_name repo_name token m) \<noteq> 200"
    and body: "json (collaborators_page srv org_name repo_name token m) = Some body"
    by (auto simp: pages_until_failure_def)
  from body have "page_items (collaborators_page srv org_name repo_name token m) = body"
    by (simp add: page_items_def)
  then show "get_collaborators_for_repo srv org_name repo_name token tr =
        Some (Inr (concat (map (\<lambda>p. page_items
                                     (collaborators_page srv org_name repo_name token p))
                             [1..m - 1])),
              tr @ concat (map (page_events (collaborators_request org_name repo_name token)
                                  (collaborators_page srv org_name repo_name token)) [1..m - 1])
                 @ [Request (collaborators_request org_name repo_name token m),
                    Print (ErrorFetchingCollaborators org_name repo_name
                             (status_code (collaborators_page srv org_name repo_name token m))),
                    Print (CollaboratorsBody
                             (page_items (collaborators_page srv org_name repo_name token m)))])"
    by (simp add: get_collaborators_for_repo_skip [OF m full]
          get_collaborators_loop_failed [OF bad body])
qed

text \<open>
  A repository listing that fails on its second page returns the first page; a
  collaborator listing that fails on its first page returns the empty list.
\<close>

theorem listing_failure_returns_accumulated_witness:
  "get_repos_for_org flaky_server ''acme'' ''tok'' [] =
     Some (Inr three_repos,
           [Request (repos_request ''acme'' ''tok'' 1), Request (repos_request ''acme'' ''tok'' 2),
            Print (ErrorFetchingRepositories ''acme'' 403), Print (ReposBody [])]) \<and>
   get_collaborators_for_repo flaky_server ''acme'' ''site'' ''tok'' [] =
     Some (Inr [],
           [Request (collaborators_request ''acme'' ''site'' ''tok'' 1),
            Print (ErrorFetchingCollaborators ''acme'' ''site'' 404),
            Print (CollaboratorsBody [])])"
proof -
  have r: "pages_until_failure (repos_page flaky_server ''acme'' ''tok'') 2"
    by (simp add: pages_until_failure_def flaky_server_def three_repos_def example_defs)
  have c: "pages_until_failure (collaborators_page flaky_server ''acme'' ''site'' ''tok'') 1"
    by (simp add: pages_until_failure_def flaky_server_def example_defs)
  have up: "[1..2 - 1] = [1::int]" "[1..1 - 1] = ([]::int list)"
    by (simp_all add: upto.simps)
  have ev: "page_events (repos_request ''acme'' ''tok'') (repos_page flaky_server ''acme'' ''tok'') 1
              = [Request (repos_request ''acme'' ''tok'' 1)]"
    by (simp add: page_events_def cooldown_def low_quota_def flaky_server_def example_defs)
  have st: "status_code (repos_page flaky_server ''acme'' ''tok'' 2) = 403"
      "page_items (repos_page flaky_server ''acme'' ''tok'' 2) = []"
      "page_items (repos_page flaky_server ''acme'' ''tok'' 1) = three_repos"
      "status_code (collaborators_page flaky_server ''acme'' ''site'' ''tok'' 1) = 404"
      "page_items (collaborators_page flaky_server ''acme'' ''site'' ''tok'' 1) = []"
    by (simp_all add: flaky_server_def example_defs)
  from listing_failure_returns_accumulated
         [of flaky_server "''acme''" "''tok''" 2 "[]" "''site''" 1] r c
  show ?thesis
    by (simp add: up ev st)
qed

text \<open>
  C4, as the claim has it, fails when the body of the failed response is not JSON: line 45
  (line 78 for collaborators) decodes the body to print it, and \<^verbatim>\<open>response.json()\<close>
  raises before the \<^verbatim>\<open>return\<close>. Behind a gateway that answers the second page of the
  repository listing with 502 and an HTML page, the fetch raises after printing the
  status, and the first page is lost; a collaborator listing whose first page is
  answered that way raises too.
\<close>

theorem listing_failure_not_json_counterexample:
  "get_repos_for_org gateway_server ''acme'' ''tok'' [] =
     Some (Inl JSONDecodeError,
           [Request (repos_request ''acme'' ''tok'' 1), Request (repos_request ''acme'' ''tok'' 2),
            Print (ErrorFetchingRepositories ''acme'' 502)]) \<and>
   get_collaborators_for_repo gateway_server ''acme'' ''site'' ''tok'' [] =
     Some (Inl JSONDecodeError,
           [Request (collaborators_request ''acme'' ''site'' ''tok'' 1),
            Print (ErrorFetchingCollaborators ''acme'' ''site'' 502)])"
  by (simp add: get_repos_for_org_def get_repos_loop.simps get_collaborators_for_repo_def
        get_collaborators_loop.simps gateway_server_def three_repos_def example_defs)

text \<open>
  C6: in a fetch of the repository listing or of the collaborator listing whose pages
  \<open>1, ..., n - 1\<close> answer 200 with non-empty lists and which stops at page \<open>n\<close>, take any
  page \<open>p < n\<close>. Between the request for page \<open>p\<close> and the request for page
  \<open>p + 1\<close> the program prints the warning and sleeps 60 when the response for page \<open>p\<close>
  reports a remaining quota below 10, and does nothing at all when it reports 10 or more
  (or carries no such header).
\<close>

theorem cooldown_before_next_page:
  "(pages_until_stop (repos_page srv org_name token) n \<and> 1 \<le> p \<and> p < n \<longrightarrow>
      (\<exists>result post. get_repos_for_org srv org_name token tr =
         Some (result,
               tr @ concat (map (page_events (repos_request org_name token)
                                  (repos_page srv org_name token)) [1..p - 1])
                  @ [Request (repos_request org_name token p)]
                  @ (case x_ratelimit_remaining (repos_page srv org_name token p) of
                       None \<Rightarrow> []
                     | Some remaining \<Rightarrow>
                         if remaining < 10 then [Print RateLimitApproaching, Sleep 60] else [])
                  @ [Request (repos_request org_name token (p + 1))] @ post))) \<and>
   (pages_until_stop (collaborators_page srv org_name repo_name token) m \<and> 1 \<le> q \<and> q < m \<longrightarrow>
      (\<exists>result post. get_collaborators_for_repo srv org_name repo_name token tr =
         Some (result,
               tr @ concat (map (page_events (collaborators_request org_name repo_name token)
                                  (collaborators_page srv org_name repo_name token)) [1..q - 1])
                  @ [Request (collaborators_request org_name repo_name token q)]
                  @ (case x_ratelimit_remaining
                            (collaborators_page srv org_name repo_name token q) of
                       None \<Rightarrow> []
                     | Some remaining \<Rightarrow>
                         if remaining < 10 then [Print RateLimitApproaching, Sleep 60] else [])
                  @ [Request (collaborators_request org_name repo_name token (q + 1))] @ post)))"
proof (intro conjI impI)
  assume h: "pages_until_stop (repos_page srv org_name token) n \<and> 1 \<le> p \<and> p < n"
  then have n: "1 \<le> n" and full: "\<forall>p\<in>{1..<n}. full_page (repos_page srv org_name token p)"
    and stop: "\<not> full_page (repos_page srv org_name token n)" and p: "1 \<le> p" "p < n"
    by (simp_all add: pages_until_stop_def)
  let ?pe = "page_events (repos_request org_name token) (repos_page srv org_name token)"
  from get_repos_loop_stop [OF stop] obtain result fin where
    run: "get_repos_for_org srv org_name token tr =
       Some (result,
         (tr @ concat (map ?pe [1..n - 1])) @ Request (repos_request org_name token n) # fin)"
    unfolding get_repos_for_org_skip [OF n full] by blast
  from page_events_split [OF p, of "repos_request org_name token" "repos_page srv org_name token" fin]
  obtain post where "concat (map ?pe [1..n - 1]) @ Request (repos_request org_name token n) # fin =
           concat (map ?pe [1..p - 1]) @ [Request (repos_request org_name token p)] @
           (case x_ratelimit_remaining (repos_page srv org_name token p) of
              None \<Rightarrow> []
            | Some remaining \<Rightarrow>
                if remaining < 10 then [Print RateLimitApproaching, Sleep 60] else []) @
           [Request (repos_request org_name token (p + 1))] @ post" ..
  with run show "\<exists>result post. get_repos_for_org srv org_name token tr =
         Some (result,
               tr @ concat (map ?pe [1..p - 1])
                  @ [Request (repos_request org_name token p)]
                  @ (case x_ratelimit_remaining (repos_page srv org_name token p) of
                       None \<Rightarrow> []
                     | Some remaining \<Rightarrow>
                         if remaining < 10 then [Print RateLimitApproaching, Sleep 60] else [])
                  @ [Request (repos_request org_name token (p + 1))] @ post)"
    by (intro exI [of _ result] exI [of _ post]) simp
next
  assume h: "pages_until_stop (collaborators_page srv org_name repo_name token) m \<and> 1 \<le> q \<and> q < m"
  then have m: "1 \<le> m"
    and full: "\<forall>p\<in>{1..<m}. full_page (collaborators_page srv org_name repo_name token p)"
    and stop: "\<not> full_page (collaborators_page srv org_name repo_name token m)"
    and q: "1 \<le> q" "q < m"
    by (simp_all add: pages_until_stop_def)
  let ?pe = "page_events (collaborators_request org_name repo_name token)
               (collaborators_page srv org_name repo_name token)"
  from get_collaborators_loop_stop [OF stop] obtain result fin where
    run: "get_collaborators_for_repo srv org_name repo_name token tr =
       Some (result,
         (tr @ concat (map ?pe [1..m - 1]))
           @ Request (collaborators_request org_name repo_name token m) # fin)"
    unfolding get_collaborators_for_repo_skip [OF m full] by blast
  from page_events_split [OF q, of "collaborators_request org_name repo_name token"
      "collaborators_page srv org_name repo_name token" fin]
  obtain post where "concat (map ?pe [1..m - 1])
             @ Request (collaborators_request org_name repo_name token m) # fin =
           concat (map ?pe [1..q - 1]) @ [Request (collaborators_request org_name repo_name token q)] @
           (case x_ratelimit_remaining (collaborators_page srv org_name repo_name token q) of
              None \<Rightarrow> []
            | Some remaining \<Rightarrow>
                if remaining < 10 then [Print RateLimitApproaching, Sleep 60] else []) @
           [Request (collaborators_request org_name repo_name token (q + 1))] @ post" ..
  with run show "\<exists>result post. get_collaborators_for_repo srv org_name repo_name token tr =
         Some (result,
               tr @ concat (map ?pe [1..q - 1])
                  @ [Request (collaborators_request org_name repo_name token q)]
                  @ (case x_ratelimit_remaining
                            (collaborators_page srv org_name repo_name token q) of
                       None \<Rightarrow> []
                     | Some remaining \<Rightarrow>
                         if remaining < 10 then [Print RateLimitApproaching, Sleep 60] else [])
                  @ [Request (collaborators_request org_name repo_name token (q + 1))] @ post)"
    by (intro exI [of _ result] exI [of _ post]) simp
qed

text \<open>
  A remaining quota of 9 on page 1 delays the request for page 2; a remaining quota of
  10 on page 2, or no header, lets the request for page 3 follow at once.
\<close>

theorem cooldown_before_next_page_witness:
  "(\<exists>post. get_repos_for_org throttled_server ''acme'' ''tok'' [] =
      Some (Inr (three_repos @ three_repos),
            [Request (repos_request ''acme'' ''tok'' 1), Print RateLimitApproaching, Sleep 60,
             Request (repos_request ''acme'' ''tok'' 2)] @ post)) \<and>
   (\<exists>post. get_repos_for_org throttled_server ''acme'' ''tok'' [] =
      Some (Inr (three_repos @ three_repos),
            [Request (repos_request ''acme'' ''tok'' 1), Print RateLimitApproaching, Sleep 60,
             Request (repos_request ''acme'' ''tok'' 2),
             Request (repos_request ''acme'' ''tok'' 3)] @ post)) \<and>
   (\<exists>post. get_collaborators_for_repo throttled_server ''acme'' ''site'' ''tok'' [] =
      Some (Inr (team @ team),
            [Request (collaborators_request ''acme'' ''site'' ''tok'' 1),
             Print RateLimitApproaching, Sleep 60,
             Request (collaborators_request ''acme'' ''site'' ''tok'' 2),
             Request (collaborators_request ''acme'' ''site'' ''tok'' 3)] @ post))"
proof -
  have r: "pages_until_stop (repos_page throttled_server ''acme'' ''tok'') 3"
    by (simp add: pages_until_stop_def throttled_server_def three_repos_def example_defs)
  have c: "pages_until_stop (collaborators_page throttled_server ''acme'' ''site'' ''tok'') 3"
    by (simp add: pages_until_stop_def throttled_server_def team_def example_defs)
  have up: "[1..1 - 1] = ([]::int list)" "[1..2 - 1] = [1::int]"
    by (simp_all add: upto.simps)
  have ev: "page_events (repos_request ''acme'' ''tok'') (repos_page throttled_server ''acme'' ''tok'') 1
              = [Request (repos_request ''acme'' ''tok'' 1), Print RateLimitApproaching, Sleep 60]"
     "page_events (collaborators_request ''acme'' ''site'' ''tok'')
         (collaborators_page throttled_server ''acme'' ''site'' ''tok'') 1
              = [Request (collaborators_request ''acme'' ''site'' ''tok'' 1),
                 Print RateLimitApproaching, Sleep 60]"
    by (simp_all add: page_events_def cooldown_def low_quota_def throttled_server_def example_defs)
  have rem: "x_ratelimit_remaining (repos_page throttled_server ''acme'' ''tok'' 1) = Some 9"
    "x_ratelimit_remaining (repos_page throttled_server ''acme'' ''tok'' 2) = Some 10"
    "x_ratelimit_remaining (collaborators_page throttled_server ''acme'' ''site'' ''tok'' 2) = None"
    by (simp_all add: throttled_server_def example_defs)
  have items: "map_option fst (get_repos_for_org throttled_server ''acme'' ''tok'' []) =
                 Some (Inr (three_repos @ three_repos))"
    "map_option fst (get_collaborators_for_repo throttled_server ''acme'' ''site'' ''tok'' []) =
                 Some (Inr (team @ team))"
    by (simp_all add: get_repos_for_org_def get_repos_loop.simps throttled_server_def
          get_collaborators_for_repo_def get_collaborators_loop.simps example_defs
          three_repos_def team_def)
  from cooldown_before_next_page
         [of throttled_server "''acme''" "''tok''" 3 1 "[]" "''site''" 3 2] r c
       cooldown_before_next_page
         [of throttled_server "''acme''" "''tok''" 3 2 "[]" "''site''" 3 2] items
  show ?thesis
    by (auto simp: up ev rem)
qed

section \<open>The report\<close>

text \<open>
  The rows written up to an exception are the first of the rows expected; the rows
  written by a part that ends normally are all of them.
\<close>

lemma rows_ok_raised: "rows_ok (Inl err) written (written @ later)"
  by (simp add: rows_ok_def)

lemma rows_ok_raised_more: "rows_ok (Inl err) written expected \<Longrightarrow> rows_ok (Inl err) written (expected @ later)"
  by (auto simp: rows_ok_def)

lemma rows_ok_after: "rows_ok result written expected \<Longrightarrow> rows_ok result (rows @ written) (rows @ expected)"
  by (auto simp: rows_ok_def split: sum.splits)

lemma rows_ok_returned: "rows_ok (Inr u) written expected \<longleftrightarrow> written = expected"
  by (simp add: rows_ok_def)

text \<open>
  The parts of a run extend the trace they are given, and their result and what they add
  to the trace do not depend on that trace.
\<close>

lemma get_user_email_frame:
  "get_user_email srv username token tr =
     (fst (get_user_email srv username token []),
      tr @ snd (get_user_email srv username token []))"
  by (simp add: get_user_email_def Let_def split: option.splits scan.splits)

lemma get_user_email_no_rows:
  "written_rows (snd (get_user_email srv username token [])) = []"
  by (simp add: get_user_email_def Let_def split: option.splits scan.splits)

lemma get_organizations_frame:
  "get_organizations srv token tr =
     (fst (get_organizations srv token []), tr @ snd (get_organizations srv token []))"
  by (simp add: get_organizations_def Let_def split: option.splits)

text \<open>
  What the membership listing returns is what the server's response says: the logins of
  the body when the status is 200, nothing when it is not, an exception when the body is
  not JSON.
\<close>

lemma get_organizations_membership:
  "(case fst (get_organizations srv token []) of
      Inl err \<Rightarrow> Inl err
    | Inr orgs \<Rightarrow> Inr (map org_login orgs)) = membership srv token"
  by (simp add: get_organizations_def membership_def orgs_request_def Let_def
        split: option.splits)

lemma get_organizations_trace:
  "snd (get_organizations srv token []) =
     Request (orgs_request token) #
       (if status_code (user_orgs srv (orgs_request token)) \<noteq> 200
        then Print (ErrorFetchingOrganizations (status_code (user_orgs srv (orgs_request token)))) #
               (case json (user_orgs srv (orgs_request token)) of
                  None \<Rightarrow> []
                | Some body \<Rightarrow> [Print (OrgsBody body)])
        else [])"
  by (simp add: get_organizations_def orgs_request_def Let_def split: option.splits)

lemma get_organizations_no_rows:
  "written_rows (snd (get_organizations srv token [])) = []"
  by (simp add: get_organizations_trace split: option.splits)

lemma report_collaborators_rows:
  "\<exists>result rest.
      (\<forall>tr. report_collaborators srv org_name repo_name token cs tr = (result, tr @ rest)) \<and>
      rows_ok result (written_rows rest) (map (report_row srv token org_name repo_name) cs)"
proof (induction cs)
  case Nil
  show ?case by (simp add: rows_ok_def)
next
  case (Cons c cs)
  then obtain result rest where
    rest: "\<And>tr. report_collaborators srv org_name repo_name token cs tr = (result, tr @ rest)"
      "rows_ok result (written_rows rest) (map (report_row srv token org_name repo_name) cs)"
    by blast
  let ?e = "get_user_email srv (collab_login c) token []"
  show ?case
  proof (cases "fst ?e")
    case (Inl err)
    then have "report_collaborators srv org_name repo_name token (c # cs) tr =
                 (Inl err, tr @ snd ?e)" for tr
      by (simp add: Let_def get_user_email_frame [of srv "collab_login c" token tr])
    moreover have "rows_ok (Inl err) (written_rows (snd ?e))
                     (map (report_row srv token org_name repo_name) (c # cs))"
      by (simp add: get_user_email_no_rows rows_ok_def)
    ultimately show ?thesis by blast
  next
    case (Inr email)
    let ?row = "report_row srv token org_name repo_name c"
    let ?here = "snd ?e @ [WriteRow ?row]"
    from Inr have row: "?row = [org_name, repo_name, collab_login c, email,
                                get_permission_level (collab_permissions c)]"
      by (simp add: report_row_def resolved_email_def)
    have "report_collaborators srv org_name repo_name token (c # cs) tr =
            (result, tr @ ?here @ rest)" for tr
      using Inr
      by (simp add: Let_def rest(1) row get_user_email_frame [of srv "collab_login c" token tr])
    moreover have "rows_ok result (written_rows (?here @ rest))
                     (map (report_row srv token org_name repo_name) (c # cs))"
      using rows_ok_after [OF rest(2), of "[?row]"]
      by (simp add: written_rows_append get_user_email_no_rows)
    ultimately show ?thesis by blast
  qed
qed

lemma get_repos_for_org_frame:
  assumes "get_repos_for_org srv org_name token tr = Some (result, t)"
  shows "\<exists>rest. t = tr @ rest \<and> written_rows rest = [] \<and>
            (\<forall>tr'. get_repos_for_org srv org_name token tr' = Some (result, tr' @ rest)) \<and>
            (\<forall>repos. result = Inr repos \<longrightarrow> repos = repos_of srv token org_name)"
proof -
  from get_repos_loop_frame [OF assms [unfolded get_repos_for_org_def]]
  obtain rest where rest: "t = tr @ rest" "written_rows rest = []"
    "\<And>tr'. get_repos_for_org srv org_name token tr' = Some (result, tr' @ rest)"
    unfolding get_repos_for_org_def by blast
  from rest(3) [of "[]"] have "\<forall>repos. result = Inr repos \<longrightarrow> repos = repos_of srv token org_name"
    by (simp add: repos_of_def)
  with rest show ?thesis by blast
qed

lemma get_collaborators_for_repo_frame:
  assumes "get_collaborators_for_repo srv org_name repo_name token tr = Some (result, t)"
  shows "\<exists>rest. t = tr @ rest \<and> written_rows rest = [] \<and>
            (\<forall>tr'. get_collaborators_for_repo srv org_name repo_name token tr'
                      = Some (result, tr' @ rest)) \<and>
            (\<forall>cs. result = Inr cs \<longrightarrow> cs = collaborators_of srv token org_name repo_name)"
proof -
  from get_collaborators_loop_frame [OF assms [unfolded get_collaborators_for_repo_def]]
  obtain rest where rest: "t = tr @ rest" "written_rows rest = []"
    "\<And>tr'. get_collaborators_for_repo srv org_name repo_name token tr' = Some (result, tr' @ rest)"
    unfolding get_collaborators_for_repo_def by blast
  from rest(3) [of "[]"]
  have "\<forall>cs. result = Inr cs \<longrightarrow> cs = collaborators_of srv token org_name repo_name"
    by (simp add: collaborators_of_def)
  with rest show ?thesis by blast
qed

lemma report_repos_rows:
  assumes "report_repos srv org_name token repos tr = Some (result, t)"
  shows "\<exists>rest. t = tr @ rest \<and>
           rows_ok result (written_rows rest) (concat (map (repo_rows srv token org_name) repos)) \<and>
           (\<forall>tr'. report_repos srv org_name token repos tr' = Some (result, tr' @ rest))"
  using assms
proof (induction repos arbitrary: tr t)
  case Nil
  then show ?case by (auto simp: rows_ok_def)
next
  case (Cons repo repos)
  let ?tr1 = "tr @ [Print (ProcessingRepository (name repo))]"
  let ?more = "concat (map (repo_rows srv token org_name) repos)"
  from Cons.prems obtain fetched t1 where
    fetch: "get_collaborators_for_repo srv org_name (name repo) token ?tr1 = Some (fetched, t1)"
    by (auto simp: Let_def split: option.splits)
  from get_collaborators_for_repo_frame [OF fetch] obtain r1 where
    r1: "t1 = ?tr1 @ r1" "written_rows r1 = []"
      "\<And>tr'. get_collaborators_for_repo srv org_name (name repo) token tr'
               = Some (fetched, tr' @ r1)"
    and listed: "\<And>cs. fetched = Inr cs \<Longrightarrow> cs = collaborators_of srv token org_name (name repo)"
    by blast
  show ?case
  proof (cases fetched)
    case (Inl err)
    let ?here = "[Print (ProcessingRepository (name repo))] @ r1"
    have all: "report_repos srv org_name token (repo # repos) tr' = Some (Inl err, tr' @ ?here)"
      for tr'
      by (simp add: Let_def r1(3) Inl)
    with Cons.prems have "result = Inl err" "t = tr @ ?here" by simp_all
    moreover have "rows_ok (Inl err) (written_rows ?here)
                     (concat (map (repo_rows srv token org_name) (repo # repos)))"
      by (simp add: r1(2) rows_ok_def)
    ultimately show ?thesis using all by blast
  next
    case (Inr cs)
    from listed [OF Inr] have cs: "cs = collaborators_of srv token org_name (name repo)" .
    from report_collaborators_rows [of srv org_name "name repo" token cs] obtain written r2 where
      r2: "\<And>tr. report_collaborators srv org_name (name repo) token cs tr = (written, tr @ r2)"
        "rows_ok written (written_rows r2) (repo_rows srv token org_name repo)"
      unfolding repo_rows_def cs by blast
    show ?thesis
    proof (cases written)
      case (Inl err)
      let ?here = "[Print (ProcessingRepository (name repo))] @ r1 @ r2"
      have all: "report_repos srv org_name token (repo # repos) tr' = Some (Inl err, tr' @ ?here)"
        for tr'
        by (simp add: Let_def r1(3) r2(1) \<open>fetched = Inr cs\<close> Inl)
      with Cons.prems have "result = Inl err" "t = tr @ ?here" by simp_all
      moreover have "rows_ok (Inl err) (written_rows ?here)
                       (concat (map (repo_rows srv token org_name) (repo # repos)))"
        using rows_ok_raised_more [OF r2(2) [unfolded Inl], of ?more]
        by (simp add: written_rows_append r1(2))
      ultimately show ?thesis using all by blast
    next
      case (Inr u)
      let ?here = "[Print (ProcessingRepository (name repo))] @ r1 @ r2
                     @ [Print (AddedCollaborators (length cs) (name repo))]"
      have step: "report_repos srv org_name token (repo # repos) tr' =
                    report_repos srv org_name token repos (tr' @ ?here)" for tr'
        by (simp add: Let_def r1(3) r2(1) \<open>fetched = Inr cs\<close> Inr)
      from Cons.prems have "report_repos srv org_name token repos (tr @ ?here) = Some (result, t)"
        by (simp only: step)
      from Cons.IH [OF this] obtain rest where
        rest: "t = (tr @ ?here) @ rest"
          "rows_ok result (written_rows rest) ?more"
          "\<And>tr'. report_repos srv org_name token repos tr' = Some (result, tr' @ rest)"
        by blast
      from r2(2) Inr have here: "written_rows r2 = repo_rows srv token org_name repo"
        by (simp add: rows_ok_def)
      have "rows_ok result (written_rows (?here @ rest))
              (concat (map (repo_rows srv token org_name) (repo # repos)))"
        using rows_ok_after [OF rest(2), of "repo_rows srv token org_name repo"]
        by (simp add: written_rows_append r1(2) here)
      moreover have "report_repos srv org_name token (repo # repos) tr'
                       = Some (result, tr' @ ?here @ rest)" for tr'
        using rest(3) [of "tr' @ ?here"] by (simp only: step append_assoc)
      ultimately show ?thesis using rest(1) by (intro exI [of _ "?here @ rest"]) simp
    qed
  qed
qed

lemma report_orgs_rows:
  assumes "report_orgs srv org_names token tr = Some (result, t)"
  shows "\<exists>rest. t = tr @ rest \<and>
           rows_ok result (written_rows rest) (concat (map (org_rows srv token) org_names)) \<and>
           (\<forall>tr'. report_orgs srv org_names token tr' = Some (result, tr' @ rest))"
  using assms
proof (induction org_names arbitrary: tr t)
  case Nil
  then show ?case by (auto simp: rows_ok_def)
next
  case (Cons org_name org_names)
  let ?tr1 = "tr @ [Print (ProcessingOrganization org_name)]"
  let ?more = "concat (map (org_rows srv token) org_names)"
  from Cons.prems obtain fetched t1 where
    fetch: "get_repos_for_org srv org_name token ?tr1 = Some (fetched, t1)"
    by (auto simp: Let_def split: option.splits)
  from get_repos_for_org_frame [OF fetch] obtain r1 where
    r1: "t1 = ?tr1 @ r1" "written_rows r1 = []"
      "\<And>tr'. get_repos_for_org srv org_name token tr' = Some (fetched, tr' @ r1)"
    and listed: "\<And>repos. fetched = Inr repos \<Longrightarrow> repos = repos_of srv token org_name"
    by blast
  show ?case
  proof (cases fetched)
    case (Inl err)
    let ?here = "[Print (ProcessingOrganization org_name)] @ r1"
    have all: "report_orgs srv (org_name # org_names) token tr' = Some (Inl err, tr' @ ?here)"
      for tr'
      by (simp add: Let_def r1(3) Inl)
    with Cons.prems have "result = Inl err" "t = tr @ ?here" by simp_all
    moreover have "rows_ok (Inl err) (written_rows ?here)
                     (concat (map (org_rows srv token) (org_name # org_names)))"
      by (simp add: r1(2) rows_ok_def)
    ultimately show ?thesis using all by blast
  next
    case (Inr repos)
    from listed [OF Inr] have repos: "repos = repos_of srv token org_name" .
    let ?pre = "[Print (ProcessingOrganization org_name)] @ r1
                  @ [Print (FoundRepositories (length repos) org_name)]"
    from Cons.prems obtain inner t2 where
      inner: "report_repos srv org_name token repos (tr @ ?pre) = Some (inner, t2)"
      by (auto simp: Let_def r1(3) Inr split: option.splits)
    from report_repos_rows [OF inner] obtain r2 where
      r2: "t2 = (tr @ ?pre) @ r2"
        "rows_ok inner (written_rows r2) (org_rows srv token org_name)"
        "\<And>tr'. report_repos srv org_name token repos tr' = Some (inner, tr' @ r2)"
      unfolding org_rows_def repos by blast
    show ?thesis
    proof (cases inner)
      case (Inl err)
      let ?here = "?pre @ r2"
      have all: "report_orgs srv (org_name # org_names) token tr' = Some (Inl err, tr' @ ?here)"
        for tr'
        using r2(3) [of "tr' @ ?pre"]
        by (simp add: Let_def r1(3) \<open>fetched = Inr repos\<close> Inl)
      with Cons.prems have "result = Inl err" "t = tr @ ?here" by simp_all
      moreover have "rows_ok (Inl err) (written_rows ?here)
                       (concat (map (org_rows srv token) (org_name # org_names)))"
        using rows_ok_raised_more [OF r2(2) [unfolded Inl], of ?more]
        by (simp add: written_rows_append r1(2))
      ultimately show ?thesis using all by blast
    next
      case (Inr u)
      let ?here = "?pre @ r2"
      have step: "report_orgs srv (org_name # org_names) token tr' =
                    report_orgs srv org_names token (tr' @ ?here)" for tr'
        using r2(3) [of "tr' @ ?pre"]
        by (simp add: Let_def r1(3) \<open>fetched = Inr repos\<close> Inr)
      from Cons.prems have "report_orgs srv org_names token (tr @ ?here) = Some (result, t)"
        by (simp only: step)
      from Cons.IH [OF this] obtain rest where
        rest: "t = (tr @ ?here) @ rest"
          "rows_ok result (written_rows rest) ?more"
          "\<And>tr'. report_orgs srv org_names token tr' = Some (result, tr' @ rest)"
        by blast
      from r2(2) Inr have here: "written_rows r2 = org_rows srv token org_name"
        by (simp add: rows_ok_def)
      have "rows_ok result (written_rows (?here @ rest))
              (concat (map (org_rows srv token) (org_name # org_names)))"
        using rows_ok_after [OF rest(2), of "org_rows srv token org_name"]
        by (simp add: written_rows_append r1(2) here)
      moreover have "report_orgs srv (org_name # org_names) token tr'
                       = Some (result, tr' @ ?here @ rest)" for tr'
        using rest(3) [of "tr' @ ?here"] by (simp only: step append_assoc)
      ultimately show ?thesis using rest(1) by (intro exI [of _ "?here @ rest"]) simp
    qed
  qed
qed

lemma report_orgs_append:
  "report_orgs srv (xs @ ys) token tr =
     (case report_orgs srv xs token tr of
        None \<Rightarrow> None
      | Some (Inl err, t) \<Rightarrow> Some (Inl err, t)
      | Some (Inr u, t) \<Rightarrow> report_orgs srv ys token t)"
  by (induction xs arbitrary: tr) (simp_all add: Let_def split: option.splits sum.splits)

lemma report_repos_returns:
  assumes "\<forall>repo \<in> set repos.
             get_collaborators_for_repo srv org_name (name repo) token [] \<noteq> None"
  shows "report_repos srv org_name token repos tr \<noteq> None"
  using assms
proof (induction repos arbitrary: tr)
  case Nil
  show ?case by simp
next
  case (Cons repo repos)
  then obtain fetched t0 where
    "get_collaborators_for_repo srv org_name (name repo) token [] = Some (fetched, t0)"
    by auto
  from get_collaborators_for_repo_frame [OF this] obtain r1 where
    "\<And>tr'. get_collaborators_for_repo srv org_name (name repo) token tr'
             = Some (fetched, tr' @ r1)"
    by blast
  with Cons show ?case by (simp add: Let_def split: sum.splits prod.splits)
qed

lemma report_orgs_returns:
  assumes "listings_return srv token org_names"
  shows "report_orgs srv org_names token tr \<noteq> None"
  using assms
proof (induction org_names arbitrary: tr)
  case Nil
  show ?case by simp
next
  case (Cons org_name org_names)
  then have rest: "listings_return srv token org_names"
    and here: "get_repos_for_org srv org_name token [] \<noteq> None"
      "\<forall>repo \<in> set (repos_of srv token org_name).
           get_collaborators_for_repo srv org_name (name repo) token [] \<noteq> None"
    by (simp_all add: listings_return_def)
  from here(1) obtain fetched t0 where
    "get_repos_for_org srv org_name token [] = Some (fetched, t0)" by auto
  from get_repos_for_org_frame [OF this] obtain r1 where
    listed: "\<And>repos. fetched = Inr repos \<Longrightarrow> repos = repos_of srv token org_name"
    and r1: "\<And>tr'. get_repos_for_org srv org_name token tr' = Some (fetched, tr' @ r1)"
    by blast
  show ?case
  proof (cases fetched)
    case (Inl err)
    then show ?thesis by (simp add: Let_def r1)
  next
    case (Inr repos)
    with listed have repos: "repos = repos_of srv token org_name" by simp
    from report_repos_returns [OF here(2)] repos
    have "report_repos srv org_name token repos tr' \<noteq> None" for tr' by simp
    then obtain inner t2 where "report_repos srv org_name token repos
        ((tr @ [Print (ProcessingOrganization org_name)]) @ r1
           @ [Print (FoundRepositories (length repos) org_name)]) = Some (inner, t2)"
      by fastforce
    with Cons.IH [OF rest] r1 Inr show ?thesis by (simp add: Let_def split: sum.splits)
  qed
qed

lemma report_collaborators_succeeds:
  assumes "\<forall>c \<in> set cs. lookup_succeeds srv token c"
  shows "fst (report_collaborators srv org_name repo_name token cs tr) = Inr ()"
  using assms
proof (induction cs arbitrary: tr)
  case Nil
  show ?case by simp
next
  case (Cons c cs)
  then obtain email where "fst (get_user_email srv (collab_login c) token []) = Inr email"
    by (auto simp: lookup_succeeds_def split: sum.splits)
  with Cons show ?case
    by (simp add: Let_def get_user_email_frame [of srv "collab_login c" token tr])
qed

lemma report_repos_succeeds:
  assumes "\<forall>repo \<in> set repos.
             fetch_succeeds (get_collaborators_for_repo srv org_name (name repo) token []) \<and>
             (\<forall>c \<in> set (collaborators_of srv token org_name (name repo)).
                lookup_succeeds srv token c)"
  shows "\<exists>t. report_repos srv org_name token repos tr = Some (Inr (), t)"
  using assms
proof (induction repos arbitrary: tr)
  case Nil
  show ?case by simp
next
  case (Cons repo repos)
  then obtain cs t0 where
    "get_collaborators_for_repo srv org_name (name repo) token [] = Some (Inr cs, t0)"
    by (auto simp: fetch_succeeds_def split: option.splits sum.splits)
  from get_collaborators_for_repo_frame [OF this] obtain r1 where
    cs: "cs = collaborators_of srv token org_name (name repo)"
    and r1: "\<And>tr'. get_collaborators_for_repo srv org_name (name repo) token tr'
             = Some (Inr cs, tr' @ r1)"
    by blast
  from Cons.prems cs have "\<forall>c \<in> set cs. lookup_succeeds srv token c" by simp
  from report_collaborators_succeeds [OF this]
  have "fst (report_collaborators srv org_name (name repo) token cs tr') = Inr ()" for tr' .
  moreover from Cons have "\<exists>t. report_repos srv org_name token repos tr' = Some (Inr (), t)" for tr'
    by simp
  ultimately show ?case
    by (simp add: Let_def r1 split: prod.splits sum.splits) (metis fst_conv sum.inject(2) sum.distinct(1))
qed

lemma report_orgs_succeeds:
  assumes "listings_succeed srv token org_names"
  shows "\<exists>t. report_orgs srv org_names token tr = Some (Inr (), t)"
  using assms
proof (induction org_names arbitrary: tr)
  case Nil
  show ?case by simp
next
  case (Cons org_name org_names)
  then have rest: "listings_succeed srv token org_names"
    and here: "fetch_succeeds (get_repos_for_org srv org_name token [])"
      "\<forall>repo \<in> set (repos_of srv token org_name).
           fetch_succeeds (get_collaborators_for_repo srv org_name (name repo) token []) \<and>
           (\<forall>c \<in> set (collaborators_of srv token org_name (name repo)).
              lookup_succeeds srv token c)"
    by (simp_all add: listings_succeed_def)
  from here(1) obtain repos t0 where
    "get_repos_for_org srv org_name token [] = Some (Inr repos, t0)"
    by (auto simp: fetch_succeeds_def split: option.splits sum.splits)
  from get_repos_for_org_frame [OF this] obtain r1 where
    repos: "repos = repos_of srv token org_name"
    and r1: "\<And>tr'. get_repos_for_org srv org_name token tr' = Some (Inr repos, tr' @ r1)"
    by blast
  from report_repos_succeeds [OF here(2)] repos
  obtain t2 where "report_repos srv org_name token repos
      ((tr @ [Print (ProcessingOrganization org_name)]) @ r1
         @ [Print (FoundRepositories (length repos) org_name)]) = Some (Inr (), t2)"
    by blast
  with Cons.IH [OF rest] r1 show ?case by (simp add: Let_def)
qed

lemma report_orgs_trace_independent:
  assumes "report_orgs srv org_names token tr = Some (result, t)"
  shows "\<exists>t'. report_orgs srv org_names token tr' = Some (result, t')"
  using report_orgs_rows [OF assms] by blast

lemma report_orgs_append_succeeds:
  assumes "report_orgs srv xs token [] = Some (Inr (), t1)"
    and "report_orgs srv ys token [] = Some (Inr (), t2)"
  shows "\<exists>t. report_orgs srv (xs @ ys) token tr = Some (Inr (), t)"
proof -
  from report_orgs_trace_independent [OF assms(1)] obtain t where
    "report_orgs srv xs token tr = Some (Inr (), t)" by blast
  with report_orgs_trace_independent [OF assms(2), of t] show ?thesis
    by (simp add: report_orgs_append)
qed

text \<open>
  A run is its prologue, the loop over the resolved organizations, and its end: the file
  closed and, after a normal end, the final message.
\<close>

lemma generate_report_unfold:
  "generate_report srv org_names output_file token tr =
     (case (if org_names = [] then membership srv token else Inr org_names) of
        Inl err \<Rightarrow>
          Some (Inl err, tr @ prologue srv org_names output_file token @ [CloseFile output_file])
      | Inr names \<Rightarrow>
          (case report_orgs srv names token (tr @ prologue srv org_names output_file token) of
             None \<Rightarrow> None
           | Some (Inl err, t) \<Rightarrow> Some (Inl err, t @ [CloseFile output_file])
           | Some (Inr u, t) \<Rightarrow>
               Some (Inr (), t @ [CloseFile output_file, Print (ReportGenerated output_file)])))"
proof (cases "org_names = []")
  case False
  then show ?thesis
    by (simp add: generate_report_def prologue_def header_row_def Let_def)
next
  case True
  let ?tr = "tr @ [OpenWrite output_file, WriteRow header_row]"
  show ?thesis
  proof (cases "fst (get_organizations srv token [])")
    case (Inl err)
    with get_organizations_membership [of srv token]
    have m: "membership srv token = Inl err" by simp
    from Inl show ?thesis
      by (simp add: generate_report_def prologue_def header_row_def [symmetric] Let_def True m
            get_organizations_frame [of srv token ?tr])
  next
    case (Inr orgs)
    with get_organizations_membership [of srv token]
    have m: "membership srv token = Inr (map org_login orgs)" by simp
    from Inr show ?thesis
      by (simp add: generate_report_def prologue_def header_row_def [symmetric] Let_def True m
            get_organizations_frame [of srv token ?tr])
  qed
qed

lemma written_rows_prologue:
  "written_rows (prologue srv org_names output_file token) = [header_row]"
  by (simp add: prologue_def written_rows_append get_organizations_no_rows split: sum.splits)

lemma generate_report_rows:
  assumes "generate_report srv org_names output_file token [] = Some (result, t)"
  shows "(\<exists>rest. t = prologue srv org_names output_file token @ rest) \<and>
         rows_ok result (written_rows t)
           (header_row # concat (map (org_rows srv token) (resolved_org_names srv token org_names)))"
proof (cases "if org_names = [] then membership srv token else Inr org_names")
  case (Inl err)
  with assms have "result = Inl err"
    "t = prologue srv org_names output_file token @ [CloseFile output_file]"
    by (simp_all add: generate_report_unfold)
  then show ?thesis
    by (simp add: written_rows_append written_rows_prologue rows_ok_def)
next
  case (Inr names)
  then have names: "names = resolved_org_names srv token org_names"
    by (auto simp: resolved_org_names_def split: if_splits)
  let ?pro = "prologue srv org_names output_file token"
  from assms Inr obtain inner t1 where
    t1: "report_orgs srv names token ?pro = Some (inner, t1)"
    by (auto simp: generate_report_unfold split: option.splits)
  from report_orgs_rows [OF t1] obtain rest where
    rest: "t1 = ?pro @ rest"
      "rows_ok inner (written_rows rest) (concat (map (org_rows srv token) names))"
    by blast
  from assms Inr t1 have ending: "result = (case inner of Inl err \<Rightarrow> Inl err | Inr u \<Rightarrow> Inr ())"
    "\<exists>fin. t = t1 @ fin \<and> written_rows fin = []"
    by (auto simp: generate_report_unfold split: sum.splits)
  from ending(2) obtain fin where fin: "t = t1 @ fin" "written_rows fin = []" by blast
  have "rows_ok result (written_rows t) (header_row # concat (map (org_rows srv token) names))"
    using rows_ok_after [OF rest(2), of "[header_row]"] ending(1)
    by (simp add: fin rest(1) written_rows_append written_rows_prologue rows_ok_def
          split: sum.splits)
  with fin rest(1) names show ?thesis by auto
qed

lemma generate_report_given_orgs:
  assumes "org_names \<noteq> []"
  shows "(report_orgs srv org_names token [] = Some (Inr (), rest) \<longrightarrow>
            (\<exists>t. generate_report srv org_names output_file token [] = Some (Inr (), t))) \<and>
         (generate_report srv org_names output_file token [] = Some (Inr (), t) \<longrightarrow>
            (\<exists>rest. report_orgs srv org_names token [] = Some (Inr (), rest)) \<and>
            data_rows t = concat (map (org_rows srv token) org_names))"
proof (intro conjI impI)
  assume "report_orgs srv org_names token [] = Some (Inr (), rest)"
  from report_orgs_trace_independent [OF this] assms
  show "\<exists>t. generate_report srv org_names output_file token [] = Some (Inr (), t)"
    by (simp add: generate_report_unfold) (metis (mono_tags, lifting) case_prod_conv option.simps(5) sum.simps(6))
next
  assume run: "generate_report srv org_names output_file token [] = Some (Inr (), t)"
  from generate_report_rows [OF run] assms
  show "data_rows t = concat (map (org_rows srv token) org_names)"
    by (simp add: data_rows_def resolved_org_names_def rows_ok_def)
  from run assms obtain t1 where
    "report_orgs srv org_names token (prologue srv org_names output_file token) = Some (Inr (), t1)"
    by (auto simp: generate_report_unfold split: option.splits sum.splits)
  from report_orgs_trace_independent [OF this]
  show "\<exists>rest. report_orgs srv org_names token [] = Some (Inr (), rest)" .
qed

text \<open>
  The repository listing of an organization that fails before any page was accepted, or
  after some were, with a body that is JSON.
\<close>

lemma failed_listing_repos:
  assumes "pages_until_failure (repos_page srv org_name token) n"
  shows "fetch_succeeds (get_repos_for_org srv org_name token []) \<and>
         repos_of srv token org_name =
           concat (map (\<lambda>p. page_items (repos_page srv org_name token p)) [1..n - 1])"
proof -
  from assms obtain body where n: "1 \<le> n"
    and full: "\<forall>p\<in>{1..<n}. full_page (repos_page srv org_name token p)"
    and bad: "status_code (repos_page srv org_name token n) \<noteq> 200"
    and body: "json (repos_page srv org_name token n) = Some body"
    by (auto simp: pages_until_failure_def)
  show ?thesis
    by (simp add: fetch_succeeds_def repos_of_def get_repos_for_org_skip [OF n full]
          get_repos_loop_failed [OF bad body])
qed

lemma failed_listing_contributes_nothing:
  assumes "status_code (repos_page srv org_name token 1) \<noteq> 200"
    and "json (repos_page srv org_name token 1) \<noteq> None"
  shows "(\<exists>t. report_orgs srv [org_name] token [] = Some (Inr (), t)) \<and>
         org_rows srv token org_name = []"
proof -
  from assms have "pages_until_failure (repos_page srv org_name token) 1"
    by (simp add: pages_until_failure_def)
  from failed_listing_repos [OF this]
  have fetch: "fetch_succeeds (get_repos_for_org srv org_name token [])"
    and none: "repos_of srv token org_name = []"
    by simp_all
  then have "listings_succeed srv token [org_name]"
    by (simp add: listings_succeed_def)
  then have "\<exists>t. report_orgs srv [org_name] token [] = Some (Inr (), t)"
    by (rule report_orgs_succeeds)
  moreover have "org_rows srv token org_name = []"
    by (simp add: org_rows_def none)
  ultimately show ?thesis by blast
qed

text \<open>
  C7: a run returns when every listing fetch it makes returns, and it ends normally when
  the organizations are given or the membership listing has a JSON body, and every
  listing fetch and every email lookup it makes returns a value. The rows of a run that
  ends normally are the header row \<open>Organization, Repo Name, User Name, Email,
  Permission\<close> followed by one row per organization, repository of its listing and
  collaborator of that repository's listing, in this nesting order and in the order of
  the listings; the organizations are those given or, when none is given, the logins the
  membership listing answers with. The row holds the organization, the repository name,
  the login, the resolved email and the permission level. The rows of a run that ends
  with an exception are the first of these rows.
\<close>

theorem report_rows_in_nesting_order:
  "(listings_return srv token (resolved_org_names srv token org_names) \<longrightarrow>
      generate_report srv org_names output_file token [] \<noteq> None) \<and>
   ((org_names = [] \<longrightarrow> json (user_orgs srv (orgs_request token)) \<noteq> None) \<and>
    listings_succeed srv token (resolved_org_names srv token org_names) \<longrightarrow>
      (\<exists>t. generate_report srv org_names output_file token [] = Some (Inr (), t))) \<and>
   (\<forall>t. generate_report srv org_names output_file token [] = Some (Inr (), t) \<longrightarrow>
      written_rows t =
        [''Organization'', ''Repo Name'', ''User Name'', ''Email'', ''Permission''] #
        [report_row srv token org_name (name repo) collaborator.
           org_name \<leftarrow> (if org_names = []
                         then (if status_code (user_orgs srv (orgs_request token)) = 200
                               then map org_login (the (json (user_orgs srv (orgs_request token))))
                               else [])
                         else org_names),
           repo \<leftarrow> repos_of srv token org_name,
           collaborator \<leftarrow> collaborators_of srv token org_name (name repo)]) \<and>
   (\<forall>err t. generate_report srv org_names output_file token [] = Some (Inl err, t) \<longrightarrow>
      (\<exists>later.
         [''Organization'', ''Repo Name'', ''User Name'', ''Email'', ''Permission''] #
         [report_row srv token org_name (name repo) collaborator.
            org_name \<leftarrow> resolved_org_names srv token org_names,
            repo \<leftarrow> repos_of srv token org_name,
            collaborator \<leftarrow> collaborators_of srv token org_name (name repo)] =
         written_rows t @ later))"
proof (intro conjI impI allI)
  assume "listings_return srv token (resolved_org_names srv token org_names)"
  from report_orgs_returns [OF this]
  have ret: "report_orgs srv (resolved_org_names srv token org_names) token
               ([] @ prologue srv org_names output_file token) \<noteq> None" .
  show "generate_report srv org_names output_file token [] \<noteq> None"
  proof (cases "if org_names = [] then membership srv token else Inr org_names")
    case (Inl err)
    then show ?thesis by (simp add: generate_report_unfold)
  next
    case (Inr names)
    then have "names = resolved_org_names srv token org_names"
      by (auto simp: resolved_org_names_def split: if_splits)
    with ret Inr show ?thesis
      by (auto simp: generate_report_unfold split: option.splits sum.splits)
  qed
next
  assume h: "(org_names = [] \<longrightarrow> json (user_orgs srv (orgs_request token)) \<noteq> None) \<and>
    listings_succeed srv token (resolved_org_names srv token org_names)"
  then have "(if org_names = [] then membership srv token else Inr org_names) =
               Inr (resolved_org_names srv token org_names)"
    by (auto simp: resolved_org_names_def membership_def)
  moreover from h report_orgs_succeeds
  obtain t where "report_orgs srv (resolved_org_names srv token org_names) token
                    ([] @ prologue srv org_names output_file token) = Some (Inr (), t)"
    by blast
  ultimately show "\<exists>t. generate_report srv org_names output_file token [] = Some (Inr (), t)"
    by (simp add: generate_report_unfold)
next
  fix t
  assume run: "generate_report srv org_names output_file token [] = Some (Inr (), t)"
  then have "org_names = [] \<longrightarrow> json (user_orgs srv (orgs_request token)) \<noteq> None"
    by (auto simp: generate_report_unfold membership_def split: option.splits)
  then have names: "resolved_org_names srv token org_names =
      (if org_names = []
       then (if status_code (user_orgs srv (orgs_request token)) = 200
             then map org_login (the (json (user_orgs srv (orgs_request token))))
             else [])
       else org_names)"
    by (auto simp: resolved_org_names_def membership_def)
  from generate_report_rows [OF run]
  have "written_rows t =
        [''Organization'', ''Repo Name'', ''User Name'', ''Email'', ''Permission''] #
        [report_row srv token org_name (name repo) collaborator.
           org_name \<leftarrow> resolved_org_names srv token org_names,
           repo \<leftarrow> repos_of srv token org_name,
           collaborator \<leftarrow> collaborators_of srv token org_name (name repo)]"
    by (auto simp: rows_ok_def header_row_def org_rows_def [abs_def] repo_rows_def [abs_def])
  then show "written_rows t =
        [''Organization'', ''Repo Name'', ''User Name'', ''Email'', ''Permission''] #
        [report_row srv token org_name (name repo) collaborator.
           org_name \<leftarrow> (if org_names = []
                         then (if status_code (user_orgs srv (orgs_request token)) = 200
                               then map org_login (the (json (user_orgs srv (orgs_request token))))
                               else [])
                         else org_names),
           repo \<leftarrow> repos_of srv token org_name,
           collaborator \<leftarrow> collaborators_of srv token org_name (name repo)]"
    unfolding names .
next
  fix err t
  assume "generate_report srv org_names output_file token [] = Some (Inl err, t)"
  from generate_report_rows [OF this]
  show "\<exists>later.
         [''Organization'', ''Repo Name'', ''User Name'', ''Email'', ''Permission''] #
         [report_row srv token org_name (name repo) collaborator.
            org_name \<leftarrow> resolved_org_names srv token org_names,
            repo \<leftarrow> repos_of srv token org_name,
            collaborator \<leftarrow> collaborators_of srv token org_name (name repo)] =
         written_rows t @ later"
    by (auto simp: rows_ok_def header_row_def org_rows_def [abs_def] repo_rows_def [abs_def])
qed

text \<open>
  Without organization names, on a server where the caller belongs to \<open>acme\<close> and
  \<open>initech\<close>, each with one repository and two collaborators, Write with a published
  email and Read without one: the header and four rows, in listing order. When the lookup
  for \<open>bob\<close> raises, the rows before his are in the file.
\<close>

theorem report_rows_in_nesting_order_witness:
  "map_option (map_prod id written_rows)
     (generate_report report_server [] ''out.csv'' ''tok'' []) =
     Some (Inr (),
           [[''Organization'', ''Repo Name'', ''User Name'', ''Email'', ''Permission''],
            [''acme'', ''site'', ''alice'', ''alice@example.com'', ''Write''],
            [''acme'', ''site'', ''bob'', ''Not available'', ''Read''],
            [''initech'', ''site'', ''alice'', ''alice@example.com'', ''Write''],
            [''initech'', ''site'', ''bob'', ''Not available'', ''Read'']]) \<and>
   map_option (map_prod id written_rows)
     (generate_report null_payload_server [''acme''] ''out.csv'' ''tok'' []) =
     Some (Inl AttributeError,
           [[''Organization'', ''Repo Name'', ''User Name'', ''Email'', ''Permission''],
            [''acme'', ''site'', ''alice'', ''alice@example.com'', ''Write'']])"
proof -
  have body: "json (user_orgs report_server (orgs_request ''tok'')) =
                Some [\<lparr>org_login = ''acme''\<rparr>, \<lparr>org_login = ''initech''\<rparr>]"
    and status: "status_code (user_orgs report_server (orgs_request ''tok'')) = 200"
    by (simp_all add: report_server_def ok_def)
  have ok: "listings_succeed report_server ''tok'' (resolved_org_names report_server ''tok'' [])"
    by code_simp
  have rows: "[report_row report_server ''tok'' org_name (name repo) collaborator.
           org_name \<leftarrow> [''acme'', ''initech''],
           repo \<leftarrow> repos_of report_server ''tok'' org_name,
           collaborator \<leftarrow> collaborators_of report_server ''tok'' org_name (name repo)] =
        [[''acme'', ''site'', ''alice'', ''alice@example.com'', ''Write''],
         [''acme'', ''site'', ''bob'', ''Not available'', ''Read''],
         [''initech'', ''site'', ''alice'', ''alice@example.com'', ''Write''],
         [''initech'', ''site'', ''bob'', ''Not available'', ''Read'']]"
    by code_simp
  note claim = report_rows_in_nesting_order [of report_server "''tok''" "[]" "''out.csv''"]
  from claim ok body
  obtain t where t: "generate_report report_server [] ''out.csv'' ''tok'' [] = Some (Inr (), t)"
    by auto
  with claim have "written_rows t =
        [''Organization'', ''Repo Name'', ''User Name'', ''Email'', ''Permission''] #
        [report_row report_server ''tok'' org_name (name repo) collaborator.
           org_name \<leftarrow> [''acme'', ''initech''],
           repo \<leftarrow> repos_of report_server ''tok'' org_name,
           collaborator \<leftarrow> collaborators_of report_server ''tok'' org_name (name repo)]"
    by (simp add: body status)
  with t have first: "map_option (map_prod id written_rows)
     (generate_report report_server [] ''out.csv'' ''tok'' []) =
     Some (Inr (),
           [[''Organization'', ''Repo Name'', ''User Name'', ''Email'', ''Permission''],
            [''acme'', ''site'', ''alice'', ''alice@example.com'', ''Write''],
            [''acme'', ''site'', ''bob'', ''Not available'', ''Read''],
            [''initech'', ''site'', ''alice'', ''alice@example.com'', ''Write''],
            [''initech'', ''site'', ''bob'', ''Not available'', ''Read'']])"
    unfolding rows by simp
  have second: "map_option (map_prod id written_rows)
     (generate_report null_payload_server [''acme''] ''out.csv'' ''tok'' []) =
     Some (Inl AttributeError,
           [[''Organization'', ''Repo Name'', ''User Name'', ''Email'', ''Permission''],
            [''acme'', ''site'', ''alice'', ''alice@example.com'', ''Write'']])"
    by code_simp
  from first second show ?thesis by (rule conjI)
qed

text \<open>
  C10: the trace of every run that returns starts with the output file being opened for
  writing (created or truncated) and the header row being written, before any request.
  When no organization name is given and the membership listing yields none (an empty
  list, a failure, or a body that is not JSON, on which the run ends with the exception),
  the run returns after that one request, and the file holds the header row and nothing
  else. A run returns when every listing fetch it makes returns.
\<close>

theorem header_before_any_request:
  "(\<forall>result t. generate_report srv org_names output_file token [] = Some (result, t) \<longrightarrow>
      (\<exists>rest. t = [OpenWrite output_file,
                    WriteRow [''Organization'', ''Repo Name'', ''User Name'', ''Email'',
                              ''Permission'']] @ rest)) \<and>
   (resolved_org_names srv token org_names = [] \<longrightarrow>
      (\<exists>result t. generate_report srv org_names output_file token [] = Some (result, t) \<and>
           result = (case json (user_orgs srv (orgs_request token)) of
                       None \<Rightarrow> Inl JSONDecodeError
                     | Some body \<Rightarrow> Inr ()) \<and>
           t = [OpenWrite output_file,
                WriteRow [''Organization'', ''Repo Name'', ''User Name'', ''Email'',
                          ''Permission''],
                Request (orgs_request token)] @
               (if status_code (user_orgs srv (orgs_request token)) \<noteq> 200
                then [Print (ErrorFetchingOrganizations
                               (status_code (user_orgs srv (orgs_request token))))]
                else []) @
               (case json (user_orgs srv (orgs_request token)) of
                  None \<Rightarrow> [CloseFile output_file]
                | Some body \<Rightarrow>
                    (if status_code (user_orgs srv (orgs_request token)) \<noteq> 200
                     then [Print (OrgsBody body)] else []) @
                    [Print (FoundOrganizations 0 []), CloseFile output_file,
                     Print (ReportGenerated output_file)]) \<and>
           written_rows t =
             [[''Organization'', ''Repo Name'', ''User Name'', ''Email'', ''Permission'']])) \<and>
   (listings_return srv token (resolved_org_names srv token org_names) \<longrightarrow>
      generate_report srv org_names output_file token [] \<noteq> None)"
proof (intro conjI impI allI)
  fix result t
  assume "generate_report srv org_names output_file token [] = Some (result, t)"
  from generate_report_rows [OF this]
  show "\<exists>rest. t = [OpenWrite output_file,
                    WriteRow [''Organization'', ''Repo Name'', ''User Name'', ''Email'',
                              ''Permission'']] @ rest"
    by (auto simp: prologue_def header_row_def)
next
  assume e: "resolved_org_names srv token org_names = []"
  then have n: "org_names = []" by (simp add: resolved_org_names_def split: if_splits)
  let ?r = "user_orgs srv (orgs_request token)"
  let ?result = "case json ?r of None \<Rightarrow> Inl JSONDecodeError | Some body \<Rightarrow> Inr ()"
  let ?t = "[OpenWrite output_file,
                WriteRow [''Organization'', ''Repo Name'', ''User Name'', ''Email'',
                          ''Permission''],
                Request (orgs_request token)] @
               (if status_code ?r \<noteq> 200
                then [Print (ErrorFetchingOrganizations (status_code ?r))]
                else []) @
               (case json ?r of
                  None \<Rightarrow> [CloseFile output_file]
                | Some body \<Rightarrow>
                    (if status_code ?r \<noteq> 200
                     then [Print (OrgsBody body)] else []) @
                    [Print (FoundOrganizations 0 []), CloseFile output_file,
                     Print (ReportGenerated output_file)])"
  have run: "generate_report srv org_names output_file token [] = Some (?result, ?t)"
  proof (cases "json ?r")
    case None
    then show ?thesis
      by (simp add: n generate_report_unfold prologue_def header_row_def membership_def
            get_organizations_trace)
  next
    case (Some body)
    with e n have "membership srv token = Inr []"
      by (auto simp: resolved_org_names_def membership_def split: if_splits)
    with Some show ?thesis
      by (simp add: n generate_report_unfold prologue_def header_row_def
            get_organizations_trace)
  qed
  have "written_rows ?t =
          [[''Organization'', ''Repo Name'', ''User Name'', ''Email'', ''Permission'']]"
    by (simp add: written_rows_append split: option.splits)
  with run show "\<exists>result t. generate_report srv org_names output_file token [] = Some (result, t) \<and>
                  result = ?result \<and> t = ?t \<and>
                  written_rows t =
                    [[''Organization'', ''Repo Name'', ''User Name'', ''Email'', ''Permission'']]"
    by blast
next
  assume ret: "listings_return srv token (resolved_org_names srv token org_names)"
  show "generate_report srv org_names output_file token [] \<noteq> None"
  proof (cases "if org_names = [] then membership srv token else Inr org_names")
    case (Inl err)
    then show ?thesis by (simp add: generate_report_unfold)
  next
    case (Inr names)
    then have "names = resolved_org_names srv token org_names"
      by (auto simp: resolved_org_names_def split: if_splits)
    with report_orgs_returns [OF ret, of "[] @ prologue srv org_names output_file token"] Inr
    show ?thesis
      by (auto simp: generate_report_unfold split: option.splits sum.splits)
  qed
qed

text \<open>
  A run without organization names on a server without organizations, and the first two
  events of a run over one organization with a repository and two collaborators.
\<close>

theorem header_before_any_request_witness:
  "generate_report empty_server [] ''out.csv'' ''tok'' [] =
     Some (Inr (),
           [OpenWrite ''out.csv'',
            WriteRow [''Organization'', ''Repo Name'', ''User Name'', ''Email'', ''Permission''],
            Request (orgs_request ''tok''),
            Print (FoundOrganizations 0 []), CloseFile ''out.csv'',
            Print (ReportGenerated ''out.csv'')]) \<and>
   map_option (map_prod id written_rows) (generate_report empty_server [] ''out.csv'' ''tok'' []) =
     Some (Inr (), [[''Organization'', ''Repo Name'', ''User Name'', ''Email'', ''Permission'']]) \<and>
   map_option (map_prod id (take 2)) (generate_report report_server [''acme''] ''out.csv'' ''tok'' []) =
     Some (Inr (),
           [OpenWrite ''out.csv'',
            WriteRow [''Organization'', ''Repo Name'', ''User Name'', ''Email'', ''Permission'']])"
proof -
  have e: "resolved_org_names empty_server ''tok'' [] = []"
    by (simp add: resolved_org_names_def membership_def empty_server_def ok_def)
  have s: "status_code (user_orgs empty_server (orgs_request ''tok'')) = 200"
    "json (user_orgs empty_server (orgs_request ''tok'')) = Some []"
    by (simp_all add: empty_server_def ok_def)
  from header_before_any_request [of empty_server "[]" "''out.csv''" "''tok''"] e
  have first: "generate_report empty_server [] ''out.csv'' ''tok'' [] =
     Some (Inr (),
           [OpenWrite ''out.csv'',
            WriteRow [''Organization'', ''Repo Name'', ''User Name'', ''Email'', ''Permission''],
            Request (orgs_request ''tok''),
            Print (FoundOrganizations 0 []), CloseFile ''out.csv'',
            Print (ReportGenerated ''out.csv'')])"
    by (auto simp: s)
  then have second: "map_option (map_prod id written_rows)
       (generate_report empty_server [] ''out.csv'' ''tok'' []) =
     Some (Inr (), [[''Organization'', ''Repo Name'', ''User Name'', ''Email'', ''Permission'']])"
    by simp
  have ret: "listings_return report_server ''tok'' (resolved_org_names report_server ''tok'' [''acme''])"
    by code_simp
  have res: "map_option fst (generate_report report_server [''acme''] ''out.csv'' ''tok'' []) \<noteq>
               Some (Inl JSONDecodeError) \<and>
             map_option fst (generate_report report_server [''acme''] ''out.csv'' ''tok'' []) \<noteq>
               Some (Inl AttributeError) \<and>
             map_option fst (generate_report report_server [''acme''] ''out.csv'' ''tok'' []) \<noteq>
               Some (Inl TypeError)"
    by code_simp
  note claim = header_before_any_request [of report_server "[''acme'']" "''out.csv''" "''tok''"]
  from claim ret obtain result t where
    t: "generate_report report_server [''acme''] ''out.csv'' ''tok'' [] = Some (result, t)"
    by auto
  with res have "result = Inr ()"
    by (cases result) (auto intro: error.exhaust)
  moreover from claim t obtain rest where
    "t = [OpenWrite ''out.csv'',
          WriteRow [''Organization'', ''Repo Name'', ''User Name'', ''Email'', ''Permission'']] @ rest"
    by blast
  ultimately have third: "map_option (map_prod id (take 2))
       (generate_report report_server [''acme''] ''out.csv'' ''tok'' []) =
     Some (Inr (),
           [OpenWrite ''out.csv'',
            WriteRow [''Organization'', ''Repo Name'', ''User Name'', ''Email'', ''Permission'']])"
    using t by simp
  from first second third show ?thesis by blast
qed

text \<open>
  C5, amended: in a run over the organizations \<open>A\<close>, \<open>B\<close>, \<open>C\<close>, when the repository
  listing of \<open>B\<close> fails on its first page with a body that is JSON, and the runs over \<open>A\<close>
  alone and over \<open>C\<close> alone end normally, the run ends normally and its data rows are the
  rows of \<open>A\<close> followed by the rows of \<open>C\<close>. When the listing of \<open>B\<close> fails on a later page
  \<open>n\<close>, again with a JSON body (and the run over \<open>B\<close> alone ends normally), the rows of
  \<open>B\<close> for the repositories listed on the pages before \<open>n\<close> stand between them: the rows
  of \<open>A\<close> are the same, and \<open>C\<close> is processed.
\<close>

theorem org_failure_is_scoped:
  "(status_code (repos_page srv B token 1) \<noteq> 200 \<and>
    json (repos_page srv B token 1) \<noteq> None \<and>
    generate_report srv [A] output_file token [] = Some (Inr (), tA) \<and>
    generate_report srv [C] output_file token [] = Some (Inr (), tC) \<longrightarrow>
      (\<exists>t. generate_report srv [A, B, C] output_file token [] = Some (Inr (), t) \<and>
           data_rows t = data_rows tA @ data_rows tC)) \<and>
   (pages_until_failure (repos_page srv B token) n \<and>
    generate_report srv [A] output_file token [] = Some (Inr (), tA) \<and>
    generate_report srv [B] output_file token [] = Some (Inr (), tB) \<and>
    generate_report srv [C] output_file token [] = Some (Inr (), tC) \<longrightarrow>
      (\<exists>t. generate_report srv [A, B, C] output_file token [] = Some (Inr (), t) \<and>
           data_rows t = data_rows tA @ data_rows tB @ data_rows tC \<and>
           data_rows tB =
             concat (map (repo_rows srv token B)
               (concat (map (\<lambda>p. page_items (repos_page srv B token p)) [1..n - 1])))))"
proof (intro conjI impI)
  assume h: "status_code (repos_page srv B token 1) \<noteq> 200 \<and>
    json (repos_page srv B token 1) \<noteq> None \<and>
    generate_report srv [A] output_file token [] = Some (Inr (), tA) \<and>
    generate_report srv [C] output_file token [] = Some (Inr (), tC)"
  from h generate_report_given_orgs [of "[A]" srv token _ output_file tA]
  obtain ra where a: "report_orgs srv [A] token [] = Some (Inr (), ra)"
    "data_rows tA = org_rows srv token A"
    by (auto simp del: report_orgs.simps)
  from h generate_report_given_orgs [of "[C]" srv token _ output_file tC]
  obtain rc where c: "report_orgs srv [C] token [] = Some (Inr (), rc)"
    "data_rows tC = org_rows srv token C"
    by (auto simp del: report_orgs.simps)
  from h failed_listing_contributes_nothing [of srv B token]
  obtain rb where b: "report_orgs srv [B] token [] = Some (Inr (), rb)"
    "org_rows srv token B = []"
    by (auto simp del: report_orgs.simps)
  from report_orgs_append_succeeds [OF b(1) c(1), of "[]"]
  obtain rbc where "report_orgs srv ([B] @ [C]) token [] = Some (Inr (), rbc)" by blast
  from report_orgs_append_succeeds [OF a(1) this, of "[]"]
  obtain rabc where "report_orgs srv [A, B, C] token [] = Some (Inr (), rabc)"
    by (auto simp del: report_orgs.simps)
  with generate_report_given_orgs [of "[A, B, C]" srv token rabc output_file]
  obtain t where t: "generate_report srv [A, B, C] output_file token [] = Some (Inr (), t)"
    by (auto simp del: report_orgs.simps)
  from generate_report_given_orgs [of "[A, B, C]" srv token _ output_file t] t
  have "data_rows t = org_rows srv token A @ org_rows srv token B @ org_rows srv token C"
    by (simp del: report_orgs.simps)
  with t a(2) b(2) c(2)
  show "\<exists>t. generate_report srv [A, B, C] output_file token [] = Some (Inr (), t) \<and>
           data_rows t = data_rows tA @ data_rows tC"
    by simp
next
  assume h: "pages_until_failure (repos_page srv B token) n \<and>
    generate_report srv [A] output_file token [] = Some (Inr (), tA) \<and>
    generate_report srv [B] output_file token [] = Some (Inr (), tB) \<and>
    generate_report srv [C] output_file token [] = Some (Inr (), tC)"
  from h generate_report_given_orgs [of "[A]" srv token _ output_file tA]
  obtain ra where a: "report_orgs srv [A] token [] = Some (Inr (), ra)"
    "data_rows tA = org_rows srv token A"
    by (auto simp del: report_orgs.simps)
  from h generate_report_given_orgs [of "[B]" srv token _ output_file tB]
  obtain rb where b: "report_orgs srv [B] token [] = Some (Inr (), rb)"
    "data_rows tB = org_rows srv token B"
    by (auto simp del: report_orgs.simps)
  from h generate_report_given_orgs [of "[C]" srv token _ output_file tC]
  obtain rc where c: "report_orgs srv [C] token [] = Some (Inr (), rc)"
    "data_rows tC = org_rows srv token C"
    by (auto simp del: report_orgs.simps)
  from h failed_listing_repos [of srv B token n]
  have listed: "repos_of srv token B =
      concat (map (\<lambda>p. page_items (repos_page srv B token p)) [1..n - 1])"
    by simp
  from report_orgs_append_succeeds [OF b(1) c(1), of "[]"]
  obtain rbc where "report_orgs srv ([B] @ [C]) token [] = Some (Inr (), rbc)" by blast
  from report_orgs_append_succeeds [OF a(1) this, of "[]"]
  obtain rabc where "report_orgs srv [A, B, C] token [] = Some (Inr (), rabc)"
    by (auto simp del: report_orgs.simps)
  with generate_report_given_orgs [of "[A, B, C]" srv token rabc output_file]
  obtain t where t: "generate_report srv [A, B, C] output_file token [] = Some (Inr (), t)"
    by (auto simp del: report_orgs.simps)
  from generate_report_given_orgs [of "[A, B, C]" srv token _ output_file t] t
  have "data_rows t = org_rows srv token A @ org_rows srv token B @ org_rows srv token C"
    by (simp del: report_orgs.simps)
  moreover from b(2) listed have "data_rows tB =
             concat (map (repo_rows srv token B)
               (concat (map (\<lambda>p. page_items (repos_page srv B token p)) [1..n - 1])))"
    by (simp add: org_rows_def)
  ultimately
  show "\<exists>t. generate_report srv [A, B, C] output_file token [] = Some (Inr (), t) \<and>
           data_rows t = data_rows tA @ data_rows tB @ data_rows tC \<and>
           data_rows tB =
             concat (map (repo_rows srv token B)
               (concat (map (\<lambda>p. page_items (repos_page srv B token p)) [1..n - 1])))"
    using t a(2) b(2) c(2) by simp
qed

text \<open>
  \<open>beta\<close> fails on its first page and contributes no row; \<open>delta\<close> fails on its second
  page and contributes the rows of its first.
\<close>

theorem org_failure_is_scoped_witness:
  "map_option (map_prod id data_rows)
     (generate_report abc_server [''alpha'', ''beta'', ''gamma''] ''out.csv'' ''tok'' []) =
     Some (Inr (),
           [[''alpha'', ''site'', ''alice'', ''alice@example.com'', ''Write''],
            [''alpha'', ''site'', ''bob'', ''Not available'', ''Read''],
            [''gamma'', ''site'', ''alice'', ''alice@example.com'', ''Write''],
            [''gamma'', ''site'', ''bob'', ''Not available'', ''Read'']]) \<and>
   map_option (map_prod id data_rows)
     (generate_report abc_server [''alpha'', ''delta'', ''gamma''] ''out.csv'' ''tok'' []) =
     Some (Inr (),
           [[''alpha'', ''site'', ''alice'', ''alice@example.com'', ''Write''],
            [''alpha'', ''site'', ''bob'', ''Not available'', ''Read''],
            [''delta'', ''docs'', ''alice'', ''alice@example.com'', ''Write''],
            [''delta'', ''docs'', ''bob'', ''Not available'', ''Read''],
            [''gamma'', ''site'', ''alice'', ''alice@example.com'', ''Write''],
            [''gamma'', ''site'', ''bob'', ''Not available'', ''Read'']])"
proof -
  define tA where "tA = snd (the (generate_report abc_server [''alpha''] ''out.csv'' ''tok'' []))"
  define tD where "tD = snd (the (generate_report abc_server [''delta''] ''out.csv'' ''tok'' []))"
  define tC where "tC = snd (the (generate_report abc_server [''gamma''] ''out.csv'' ''tok'' []))"
  have "map_option fst (generate_report abc_server [''alpha''] ''out.csv'' ''tok'' []) = Some (Inr ())"
    "map_option fst (generate_report abc_server [''delta''] ''out.csv'' ''tok'' []) = Some (Inr ())"
    "map_option fst (generate_report abc_server [''gamma''] ''out.csv'' ''tok'' []) = Some (Inr ())"
    by code_simp+
  then have runs: "generate_report abc_server [''alpha''] ''out.csv'' ''tok'' [] = Some (Inr (), tA)"
    "generate_report abc_server [''delta''] ''out.csv'' ''tok'' [] = Some (Inr (), tD)"
    "generate_report abc_server [''gamma''] ''out.csv'' ''tok'' [] = Some (Inr (), tC)"
    unfolding tA_def tD_def tC_def by auto
  have rows: "data_rows tA = [[''alpha'', ''site'', ''alice'', ''alice@example.com'', ''Write''],
           [''alpha'', ''site'', ''bob'', ''Not available'', ''Read'']]"
    "data_rows tD = [[''delta'', ''docs'', ''alice'', ''alice@example.com'', ''Write''],
           [''delta'', ''docs'', ''bob'', ''Not available'', ''Read'']]"
    "data_rows tC = [[''gamma'', ''site'', ''alice'', ''alice@example.com'', ''Write''],
           [''gamma'', ''site'', ''bob'', ''Not available'', ''Read'']]"
    unfolding tA_def tD_def tC_def by code_simp+
  have b: "status_code (repos_page abc_server ''beta'' ''tok'' 1) \<noteq> 200"
    "json (repos_page abc_server ''beta'' ''tok'' 1) \<noteq> None"
    by (simp_all add: abc_server_def repos_page_def repos_request_def failed_def)
  have d: "pages_until_failure (repos_page abc_server ''delta'' ''tok'') 2"
    by code_simp
  from org_failure_is_scoped [of abc_server "''beta''" "''tok''" "''alpha''" "''out.csv''" tA
         "''gamma''" tC 1 tA] b runs
  obtain t1 where "generate_report abc_server [''alpha'', ''beta'', ''gamma''] ''out.csv'' ''tok'' []
      = Some (Inr (), t1)" "data_rows t1 = data_rows tA @ data_rows tC"
    by blast
  moreover
  from org_failure_is_scoped [of abc_server "''delta''" "''tok''" "''alpha''" "''out.csv''" tA
         "''gamma''" tC 2 tD] d runs
  obtain t2 where "generate_report abc_server [''alpha'', ''delta'', ''gamma''] ''out.csv'' ''tok'' []
      = Some (Inr (), t2)" "data_rows t2 = data_rows tA @ data_rows tD @ data_rows tC"
    by blast
  ultimately show ?thesis by (simp add: rows)
qed

text \<open>
  The repository listing of \<open>beta\<close> is answered with 502 and a body that is not JSON:
  printing the body raises, the run over \<open>alpha\<close>, \<open>beta\<close>, \<open>gamma\<close> ends with that
  exception after the rows of \<open>alpha\<close>, and \<open>gamma\<close>, whose run alone writes two rows, is
  never processed.
\<close>

theorem org_failure_not_json_counterexample:
  "status_code (repos_page broken_server ''beta'' ''tok'' 1) = 502 \<and>
   map_option (map_prod id data_rows)
     (generate_report broken_server [''alpha'', ''beta'', ''gamma''] ''out.csv'' ''tok'' []) =
     Some (Inl JSONDecodeError,
           [[''alpha'', ''site'', ''alice'', ''alice@example.com'', ''Write''],
            [''alpha'', ''site'', ''bob'', ''Not available'', ''Read'']]) \<and>
   map_option (map_prod id data_rows)
     (generate_report broken_server [''gamma''] ''out.csv'' ''tok'' []) =
     Some (Inr (),
           [[''gamma'', ''site'', ''alice'', ''alice@example.com'', ''Write''],
            [''gamma'', ''site'', ''bob'', ''Not available'', ''Read'']])"
  by code_simp

end
